theory Spec2Isabelle
  imports Main "HOL-Library.Word"
begin

section \<open>JavaScript values shared by both clients\<close>

text \<open>
  Everything thrown in \<^verbatim>\<open>authenticate.ts\<close> and \<^verbatim>\<open>idmsa.ts\<close> is either the class
  \<^verbatim>\<open>AuthenticationError(message, codeRequired)\<close> or a plain \<^verbatim>\<open>Error(message)\<close>
  (every other throwable is an \<^verbatim>\<open>Error\<close> as far as \<^verbatim>\<open>instanceof AuthenticationError\<close>
  can tell).
\<close>

datatype error = AuthenticationError string bool | Error string

fun isAuthenticationError :: "error \<Rightarrow> bool" where
  "isAuthenticationError (AuthenticationError m c) = True"
| "isAuthenticationError (Error m) = False"

fun codeRequired :: "error \<Rightarrow> bool" where
  "codeRequired (AuthenticationError m c) = c"
| "codeRequired (Error m) = False"

text \<open>
  The document returned by \<^verbatim>\<open>parsePlist\<close>, typed \<^verbatim>\<open>Record<string, any>\<close> by the
  caller: string, number and boolean leaves and nested dictionaries. A missing key reads
  as \<^verbatim>\<open>undefined\<close>, here \<open>None\<close>.

  A number is a double. It is kept as the text that \<^verbatim>\<open>String()\<close> gives for it
  (\<^verbatim>\<open>123456789\<close>, \<^verbatim>\<open>0.5\<close>, \<^verbatim>\<open>1e+21\<close>, \<^verbatim>\<open>NaN\<close>): two numbers with the same
  text are the same number, but for the sign of zero, which \<^verbatim>\<open>authenticate\<close> never
  looks at. The code only tests a number for truthiness, compares it
  with strings by \<^verbatim>\<open>===\<close> (never equal), and prints it.
\<close>

datatype pvalue =
    PString string
  | PNumber string
  | PBool bool
  | PDict "(string \<times> pvalue) list"

text \<open>Property read \<^verbatim>\<open>v.k\<close> on a value that is not \<^verbatim>\<open>undefined\<close>.\<close>

fun get_prop :: "pvalue \<Rightarrow> string \<Rightarrow> pvalue option" where
  "get_prop (PDict kvs) k = map_of kvs k"
| "get_prop v k = None"

text \<open>Optional chaining \<^verbatim>\<open>v?.k\<close>.\<close>

fun opt_prop :: "pvalue option \<Rightarrow> string \<Rightarrow> pvalue option" where
  "opt_prop None k = None"
| "opt_prop (Some v) k = get_prop v k"

text \<open>Nullish coalescing \<^verbatim>\<open>a ?? b\<close>.\<close>

fun nullish :: "'a option \<Rightarrow> 'a \<Rightarrow> 'a" where
  "nullish None d = d"
| "nullish (Some v) d = v"

text \<open>
  Truthiness of a value, as \<^verbatim>\<open>if (!x)\<close> tests it. The falsy numbers are the two zeros
  and \<^verbatim>\<open>NaN\<close>, whose texts are \<^verbatim>\<open>0\<close> and \<^verbatim>\<open>NaN\<close>.
\<close>

fun truthy :: "pvalue option \<Rightarrow> bool" where
  "truthy None = False"
| "truthy (Some (PString s)) = (s \<noteq> [])"
| "truthy (Some (PNumber t)) = (t \<noteq> ''0'' \<and> t \<noteq> ''NaN'')"
| "truthy (Some (PBool b)) = b"
| "truthy (Some (PDict kvs)) = True"

fun truthy_str :: "string option \<Rightarrow> bool" where
  "truthy_str None = False"
| "truthy_str (Some s) = (s \<noteq> [])"

text \<open>
  \<^verbatim>\<open>String(v)\<close>, which is also what \<^verbatim>\<open>new Error(v)\<close> makes of its argument.
\<close>

fun String_js :: "pvalue \<Rightarrow> string" where
  "String_js (PString s) = s"
| "String_js (PNumber t) = t"
| "String_js (PBool b) = (if b then ''true'' else ''false'')"
| "String_js (PDict kvs) = ''[object Object]''"

text \<open>
  The status of a response in a template literal: an HTTP status is an integer, printed
  with all its decimal digits.
\<close>

fun dec :: "nat \<Rightarrow> string" where
  "dec n = (if n < 10 then [''0123456789'' ! n]
            else dec (n div 10) @ [''0123456789'' ! (n mod 10)])"

definition show_int :: "int \<Rightarrow> string" where
  "show_int n = (if n < 0 then CHR ''-'' # dec (nat (- n)) else dec (nat n))"

text \<open>
  The body of a response is a JavaScript string: a sequence of UTF-16 code units, here
  numbers below 65536. \<^verbatim>\<open>s.trim()\<close> removes white space and line terminators from both
  ends, so it is the empty string exactly when every code unit is one of those: TAB, LF,
  VT, FF, CR, SPACE, U+00A0, U+1680, U+2000 to U+200A, U+2028, U+2029, U+202F, U+205F,
  U+3000 and U+FEFF.
\<close>

type_synonym jstext = "nat list"

text \<open>The code units of a text written in characters with codes below 256.\<close>

definition ascii :: "string \<Rightarrow> jstext" where
  "ascii s = map of_char s"

definition is_space :: "nat \<Rightarrow> bool" where
  "is_space n = (n \<in> {0x09, 0x0A, 0x0B, 0x0C, 0x0D, 0x20, 0xA0, 0x1680, 0x2028, 0x2029,
                       0x202F, 0x205F, 0x3000, 0xFEFF}
                 \<or> (0x2000 \<le> n \<and> n \<le> 0x200A))"

definition trim_empty :: "jstext \<Rightarrow> bool" where
  "trim_empty s = list_all is_space s"

section \<open>The transport and the other collaborators\<close>

text \<open>
  \<^verbatim>\<open>Cookie\<close> objects are never read or written by \<^verbatim>\<open>authenticate\<close>; an array of
  cookies is a list of references to them. Arrays live in a store, addressed by index, so
  that the caller's array and the private copy are different places.
\<close>

type_synonym cookie = nat
type_synonym addr = nat
type_synonym heap = "cookie list list"

definition alloc :: "heap \<Rightarrow> cookie list \<Rightarrow> addr \<times> heap" where
  "alloc h cs = (length h, h @ [cs])"

text \<open>
  A value of \<^verbatim>\<open>JSON.parse\<close>; an absent key of an object reads as \<^verbatim>\<open>undefined\<close>,
  here \<open>None\<close>.
\<close>

datatype json =
    JNull
  | JBool bool
  | JNumber int
  | JString string
  | JArray "json list"
  | JObject "(string \<times> json) list"

text \<open>
  A request body is the text of \<^verbatim>\<open>URLSearchParams.toString()\<close> or of
  \<^verbatim>\<open>JSON.stringify\<close>; it is kept as the parameters, or the value, that were serialised.
\<close>

datatype body = NoBody | FormBody "(string \<times> string) list" | JsonBody json

record request =
  req_method :: string
  req_host :: string
  req_path :: string
  req_headers :: "(string \<times> string) list"
  req_body :: body

record response =
  status :: int
  statusText :: string
  headers :: "string \<rightharpoonup> string"
  rawHeaders :: "(string \<times> string) list"
  body :: jstext

text \<open>
  \<^verbatim>\<open>appleRequest\<close> is handed the request and the array \<^verbatim>\<open>cookies\<close>. It answers with
  a response or throws, and may have written to the array it was handed: the second
  component is that array's contents afterwards. The first argument is the number of
  requests sent before this one, so a transport may answer every call differently.
\<close>

type_synonym transport = "nat \<Rightarrow> request \<Rightarrow> cookie list \<Rightarrow> (error + response) \<times> cookie list"

text \<open>
  \<^verbatim>\<open>extractAndMergeCookies(rawHeaders, cookies)\<close> returns an array: the one it was
  handed (possibly updated in place) or a new one.
\<close>

datatype merged = SameArray | NewArray "cookie list"

record url =
  hostname :: string
  pathname :: string
  search :: string

text \<open>
  The collaborators of \<^verbatim>\<open>authenticate\<close> whose code is outside the files at hand:
  \<^verbatim>\<open>defaultAuthURL\<close> and \<^verbatim>\<open>fetchBag\<close> (its \<^verbatim>\<open>authURL\<close>), the \<^verbatim>\<open>URL\<close>
  constructor (\<open>None\<close> when it throws) and \<^verbatim>\<open>searchParams.set\<close>, \<^verbatim>\<open>parsePlist\<close>,
  \<^verbatim>\<open>extractAndMergeCookies\<close>, and \<^verbatim>\<open>i18n.t\<close> without and with the \<^verbatim>\<open>status\<close>
  parameter.
\<close>

record env =
  defaultAuthURL :: string
  fetchBag :: "string \<Rightarrow> error + string"
  new_URL :: "string \<Rightarrow> url option"
  searchParams_set :: "url \<Rightarrow> string \<Rightarrow> string \<Rightarrow> url"
  parsePlist :: "jstext \<Rightarrow> error + pvalue"
  extractAndMergeCookies :: "(string \<times> string) list \<Rightarrow> cookie list \<Rightarrow> merged \<times> cookie list"
  i18n_t :: "string \<Rightarrow> string"
  i18n_t_status :: "string \<Rightarrow> int \<Rightarrow> string"

section \<open>The account-service sign-in: \<^verbatim>\<open>authenticate\<close>\<close>

record account =
  email :: string
  password :: string
  appleId :: pvalue
  store :: string
  firstName :: pvalue
  lastName :: pvalue
  passwordToken :: pvalue
  directoryServicesIdentifier :: string
  cookies :: addr
  deviceIdentifier :: string
  pod :: "string option"

text \<open>The arguments of \<^verbatim>\<open>authenticate\<close>; an omitted optional argument is \<open>None\<close>.\<close>

record args =
  email_in :: string
  password_in :: string
  code :: "string option"
  existingCookies :: "addr option"
  deviceId :: string
  smsVerified :: bool

text \<open>
  The local variables of \<^verbatim>\<open>authenticate\<close>, the array store, and the log of the
  requests handed to \<^verbatim>\<open>appleRequest\<close> so far (its length is the transport's call count).
\<close>

record auth_state =
  cookiesV :: addr
  storeFront :: string
  lastError :: "error option"
  requestHost :: string
  requestPath :: string
  currentAttempt :: nat
  redirectAttempt :: nat
  arrays :: heap
  sent :: "request list"

text \<open>How one run of the loop body ends: \<^verbatim>\<open>return\<close>, \<^verbatim>\<open>throw\<close> or \<^verbatim>\<open>continue\<close>.\<close>

datatype outcome = Return account | Throw error | Continue

text \<open>Lines 52 to 78: the request of this attempt.\<close>

definition build_request :: "args \<Rightarrow> auth_state \<Rightarrow> request" where
  "build_request a s =
     (let useCode = (truthy_str (code a) \<and> \<not> smsVerified a);
          passwordValue = (if useCode then password_in a @ nullish (code a) [] else password_in a);
          params = [(''appleId'', email_in a),
                    (''attempt'', if useCode then ''2'' else ''4''),
                    (''guid'', deviceId a),
                    (''password'', passwordValue),
                    (''rmp'', ''0''),
                    (''why'', ''signIn'')]
      in \<lparr>req_method = ''POST'', req_host = requestHost s, req_path = requestPath s,
          req_headers = [(''Content-Type'', ''application/x-www-form-urlencoded'')],
          req_body = FormBody params\<rparr>)"

text \<open>Line 83: \<^verbatim>\<open>cookies = extractAndMergeCookies(response.rawHeaders, cookies)\<close>.\<close>

definition merge_cookies :: "env \<Rightarrow> response \<Rightarrow> auth_state \<Rightarrow> auth_state" where
  "merge_cookies E response s =
     (case extractAndMergeCookies E (rawHeaders response) (arrays s ! cookiesV s) of
        (SameArray, cs) \<Rightarrow> s\<lparr>arrays := (arrays s)[cookiesV s := cs]\<rparr>
      | (NewArray new, cs) \<Rightarrow>
          (case alloc ((arrays s)[cookiesV s := cs]) new of
             (b, h) \<Rightarrow> s\<lparr>arrays := h, cookiesV := b\<rparr>))"

text \<open>Lines 86 to 92: the store front is the header's text before the first hyphen.\<close>

definition read_storeFront :: "response \<Rightarrow> auth_state \<Rightarrow> auth_state" where
  "read_storeFront response s =
     (case headers response ''x-set-apple-store-front'' of
        None \<Rightarrow> s
      | Some storeHeader \<Rightarrow>
          if storeHeader = [] then s
          else (let part0 = takeWhile (\<lambda>c. c \<noteq> CHR ''-'') storeHeader
                in if part0 \<noteq> [] then s\<lparr>storeFront := part0\<rparr> else s))"

text \<open>Lines 95 and 96: \<^verbatim>\<open>podHeader || undefined\<close>.\<close>

definition read_pod :: "response \<Rightarrow> string option" where
  "read_pod response =
     (case headers response ''pod'' of
        None \<Rightarrow> None
      | Some podHeader \<Rightarrow> if podHeader = [] then None else Some podHeader)"

text \<open>Lines 99 to 111: the redirect.\<close>

definition handle_redirect :: "env \<Rightarrow> response \<Rightarrow> auth_state \<Rightarrow> outcome \<times> auth_state" where
  "handle_redirect E response s =
     (if \<not> truthy_str (headers response ''location'')
      then (Throw (Error (i18n_t E ''errors.auth.redirectLocation'')), s)
      else (case new_URL E (nullish (headers response ''location'') []) of
              None \<Rightarrow> (Throw (Error ''Invalid URL''), s)
            | Some u \<Rightarrow>
                (Continue,
                 s\<lparr>requestHost := hostname u,
                   requestPath := pathname u @ search u,
                   currentAttempt := currentAttempt s - 1,
                   redirectAttempt := redirectAttempt s + 1\<rparr>)))"

text \<open>Lines 163 to 165: \<^verbatim>\<open>dict.dialog?.explanation ?? dict.customerMessage\<close>.\<close>

definition failureMessage :: "pvalue \<Rightarrow> pvalue option" where
  "failureMessage dict =
     (case opt_prop (get_prop dict ''dialog'') ''explanation'' of
        Some m \<Rightarrow> Some m
      | None \<Rightarrow> get_prop dict ''customerMessage'')"

text \<open>Lines 137 to 196: the parsed document.\<close>

definition handle_plist ::
  "env \<Rightarrow> args \<Rightarrow> string option \<Rightarrow> pvalue \<Rightarrow> auth_state \<Rightarrow> outcome \<times> auth_state" where
  "handle_plist E a pod_v dict s =
     (if get_prop dict ''failureType'' = Some (PString ''5020'')
      then (Throw (Error (String_js (nullish (failureMessage dict) (PString ''Account locked'')))), s)
      else if get_prop dict ''failureType'' = Some (PString ''-5000'') \<and> currentAttempt s = 1
      then (Continue, s)
      else if get_prop dict ''failureType'' = Some (PString []) \<and> \<not> truthy_str (code a)
              \<and> get_prop dict ''customerMessage''
                  = Some (PString ''MZFinance.BadLogin.Configurator_message'')
      then (Throw (AuthenticationError (i18n_t E ''errors.auth.requiresVerification'') True), s)
      else if \<not> truthy (get_prop dict ''accountInfo'')
      then (Throw (Error (String_js (nullish (failureMessage dict)
                      (PString (i18n_t E ''errors.auth.missingAccountInfo''))))), s)
      else if \<not> truthy (opt_prop (get_prop dict ''accountInfo'') ''address'')
      then (Throw (Error (String_js (nullish (failureMessage dict)
                      (PString (i18n_t E ''errors.auth.missingAddress''))))), s)
      else (Return
              \<lparr>email = email_in a,
               password = password_in a,
               appleId = nullish (opt_prop (get_prop dict ''accountInfo'') ''appleId'') (PString []),
               store = storeFront s,
               firstName = nullish (opt_prop (opt_prop (get_prop dict ''accountInfo'') ''address'')
                                      ''firstName'') (PString []),
               lastName = nullish (opt_prop (opt_prop (get_prop dict ''accountInfo'') ''address'')
                                     ''lastName'') (PString []),
               passwordToken = nullish (get_prop dict ''passwordToken'') (PString []),
               directoryServicesIdentifier =
                 String_js (nullish (get_prop dict ''dsPersonId'') (PString [])),
               cookies = cookiesV s,
               deviceIdentifier = deviceId a,
               pod = pod_v\<rparr>, s))"

text \<open>Lines 98 to 130: what is done with a response, once cookies and headers are read.\<close>

definition handle_response ::
  "env \<Rightarrow> args \<Rightarrow> response \<Rightarrow> auth_state \<Rightarrow> outcome \<times> auth_state" where
  "handle_response E a response s =
     (if status response = 302 then handle_redirect E response s
      else if status response = 404 \<and> \<not> truthy_str (code a)
      then (Throw (AuthenticationError (i18n_t E ''errors.auth.requiresVerification'') True), s)
      else if trim_empty (body response)
      then (Throw (Error (i18n_t_status E ''errors.auth.emptyBody'' (status response))), s)
      else (case parsePlist E (body response) of
              Inl e \<Rightarrow> (Throw e, s)
            | Inr dict \<Rightarrow> handle_plist E a (read_pod response) dict s))"

text \<open>
  Lines 47 to 196: one run of the loop body, up to the \<^verbatim>\<open>catch\<close>. The request is
  logged, and the array handed to the transport holds afterwards what the transport left
  in it.
\<close>

definition attempt :: "env \<Rightarrow> transport \<Rightarrow> args \<Rightarrow> auth_state \<Rightarrow> outcome \<times> auth_state" where
  "attempt E tr a s0 =
     (let s1 = s0\<lparr>currentAttempt := currentAttempt s0 + 1\<rparr>;
          req = build_request a s1
      in case tr (length (sent s1)) req (arrays s1 ! cookiesV s1) of
           (r, cs) \<Rightarrow>
             (let s2 = s1\<lparr>sent := sent s1 @ [req], arrays := (arrays s1)[cookiesV s1 := cs]\<rparr>
              in case r of
                   Inl e \<Rightarrow> (Throw e, s2)
                 | Inr response \<Rightarrow>
                     handle_response E a response
                       (read_storeFront response (merge_cookies E response s2))))"

text \<open>The state in which a response is handled: request logged, cookies merged, headers read.\<close>

definition received :: "env \<Rightarrow> args \<Rightarrow> response \<Rightarrow> cookie list \<Rightarrow> auth_state \<Rightarrow> auth_state" where
  "received E a r cs s =
     read_storeFront r (merge_cookies E r
       (s\<lparr>currentAttempt := currentAttempt s + 1,
          sent := sent s @ [build_request a s],
          arrays := (arrays s)[cookiesV s := cs]\<rparr>))"

lemma handle_redirect_counters:
  assumes "handle_redirect E response s = (out, s')"
  shows "(out = Continue \<and> currentAttempt s' = currentAttempt s - 1
            \<and> redirectAttempt s' = redirectAttempt s + 1)
         \<or> ((\<exists>e. out = Throw e) \<and> currentAttempt s' = currentAttempt s
            \<and> redirectAttempt s' = redirectAttempt s)"
  using assms by (auto simp: handle_redirect_def split: if_splits option.splits)

lemma handle_plist_state:
  assumes "handle_plist E a p dict s = (out, s')"
  shows "s' = s"
  using assms by (auto simp: handle_plist_def split: if_splits)

lemma handle_response_counters:
  assumes "handle_response E a response s = (out, s')"
  shows "(currentAttempt s' = currentAttempt s - 1 \<and> redirectAttempt s' = redirectAttempt s + 1)
         \<or> (currentAttempt s' = currentAttempt s \<and> redirectAttempt s' = redirectAttempt s)"
proof (cases "status response = 302")
  case True
  with assms handle_redirect_counters [of E response s out s'] show ?thesis
    by (auto simp: handle_response_def)
next
  case False
  with assms show ?thesis
    by (auto simp: handle_response_def split: if_splits sum.splits dest: handle_plist_state)
qed

lemma merge_cookies_counters:
  "currentAttempt (merge_cookies E r s) = currentAttempt s"
  "redirectAttempt (merge_cookies E r s) = redirectAttempt s"
  by (auto simp: merge_cookies_def alloc_def split: prod.splits merged.splits)

lemma read_storeFront_counters:
  "currentAttempt (read_storeFront r s) = currentAttempt s"
  "redirectAttempt (read_storeFront r s) = redirectAttempt s"
  by (auto simp: read_storeFront_def Let_def split: option.splits)

lemma attempt_counters:
  assumes "attempt E tr a s = (out, s')"
  shows "(currentAttempt s' = currentAttempt s \<and> redirectAttempt s' = redirectAttempt s + 1)
         \<or> (currentAttempt s' = currentAttempt s + 1 \<and> redirectAttempt s' = redirectAttempt s)"
proof -
  let ?s1 = "s\<lparr>currentAttempt := currentAttempt s + 1\<rparr>"
  obtain r cs where tr: "tr (length (sent s)) (build_request a ?s1) (arrays s ! cookiesV s) = (r, cs)"
    by (cases "tr (length (sent s)) (build_request a ?s1) (arrays s ! cookiesV s)") auto
  show ?thesis
  proof (cases r)
    case (Inl e)
    with assms tr show ?thesis by (auto simp: attempt_def Let_def)
  next
    case (Inr response)
    let ?s3 = "read_storeFront response (merge_cookies E response
        (?s1\<lparr>sent := sent s @ [build_request a ?s1], arrays := (arrays s)[cookiesV s := cs]\<rparr>))"
    from assms tr Inr have "handle_response E a response ?s3 = (out, s')"
      by (simp add: attempt_def Let_def)
    from handle_response_counters [OF this] show ?thesis
      by (auto simp: merge_cookies_counters read_storeFront_counters)
  qed
qed

text \<open>
  Lines 46 to 204: the loop with its \<^verbatim>\<open>catch\<close>, and the final \<^verbatim>\<open>throw\<close>. An
  \<^verbatim>\<open>AuthenticationError\<close> leaves the function; any other error is kept in
  \<^verbatim>\<open>lastError\<close> and the loop goes on.
\<close>

function auth_loop ::
  "env \<Rightarrow> transport \<Rightarrow> args \<Rightarrow> auth_state \<Rightarrow> (error + account) \<times> auth_state" where
  "auth_loop E tr a s =
     (if currentAttempt s < 2 \<and> redirectAttempt s \<le> 3
      then (case attempt E tr a s of
              (Return acct, s') \<Rightarrow> (Inr acct, s')
            | (Throw e, s') \<Rightarrow>
                if isAuthenticationError e then (Inl e, s')
                else auth_loop E tr a (s'\<lparr>lastError := Some e\<rparr>)
            | (Continue, s') \<Rightarrow> auth_loop E tr a s')
      else (Inl (nullish (lastError s) (Error (i18n_t E ''errors.auth.unknownReason''))), s))"
  by pat_completeness auto
termination
proof (relation "measure (\<lambda>(E, tr, a, s). (2 - currentAttempt s) + (4 - redirectAttempt s))")
  show "wf (measure (\<lambda>(E, tr, a, s). (2 - currentAttempt s) + (4 - redirectAttempt s)))"
    by simp
next
  fix E :: env and tr :: transport and a :: args and s y :: auth_state and x e
  assume c: "currentAttempt s < 2 \<and> redirectAttempt s \<le> 3"
    and x: "(x, y) = attempt E tr a s"
  from x have "attempt E tr a s = (x, y)" by simp
  from attempt_counters [OF this] c
  show "((E, tr, a, y\<lparr>lastError := Some e\<rparr>), E, tr, a, s)
        \<in> measure (\<lambda>(E, tr, a, s). (2 - currentAttempt s) + (4 - redirectAttempt s))"
    by auto
next
  fix E :: env and tr :: transport and a :: args and s y :: auth_state and x
  assume c: "currentAttempt s < 2 \<and> redirectAttempt s \<le> 3"
    and x: "(x, y) = attempt E tr a s"
  from x have "attempt E tr a s = (x, y)" by simp
  from attempt_counters [OF this] c
  show "((E, tr, a, y), E, tr, a, s)
        \<in> measure (\<lambda>(E, tr, a, s). (2 - currentAttempt s) + (4 - redirectAttempt s))"
    by auto
qed

declare auth_loop.simps [simp del]

text \<open>
  Lines 26 to 44: the private copy of the caller's array, the request target from the
  bag, and the counters. \<^verbatim>\<open>authenticate\<close> returns or throws (the first component);
  the store and the log of requests as the call leaves them are the second and third.
\<close>

definition start_state :: "addr \<Rightarrow> heap \<Rightarrow> url \<Rightarrow> auth_state" where
  "start_state c h authEndpoint =
     \<lparr>cookiesV = c, storeFront = [], lastError = None,
      requestHost = hostname authEndpoint,
      requestPath = pathname authEndpoint @ search authEndpoint,
      currentAttempt = 0, redirectAttempt = 0, arrays = h, sent = []\<rparr>"

definition authenticate ::
  "env \<Rightarrow> transport \<Rightarrow> args \<Rightarrow> heap \<Rightarrow> (error + account) \<times> heap \<times> request list" where
  "authenticate E tr a h =
     (case alloc h (case existingCookies a of Some e \<Rightarrow> h ! e | None \<Rightarrow> []) of
        (c, h1) \<Rightarrow>
          (case new_URL E (defaultAuthURL E) of
             None \<Rightarrow> (Inl (Error ''Invalid URL''), h1, [])
           | Some defaultAuthEndpoint \<Rightarrow>
               (case fetchBag E (deviceId a) of
                  Inl e \<Rightarrow> (Inl e, h1, [])
                | Inr authURL \<Rightarrow>
                    (case new_URL E authURL of
                       None \<Rightarrow> (Inl (Error ''Invalid URL''), h1, [])
                     | Some u \<Rightarrow>
                         (case auth_loop E tr a
                                 (start_state c h1 (searchParams_set E u ''guid'' (deviceId a))) of
                            (r, s) \<Rightarrow> (r, arrays s, sent s))))))"

text \<open>The state in which the loop is entered, once the bag has given the request target.\<close>

definition entry_state :: "env \<Rightarrow> args \<Rightarrow> heap \<Rightarrow> url \<Rightarrow> auth_state" where
  "entry_state E a h u =
     start_state (length h) (h @ [case existingCookies a of Some e \<Rightarrow> h ! e | None \<Rightarrow> []])
       (searchParams_set E u ''guid'' (deviceId a))"

text \<open>How many more requests the loop can still send from a state.\<close>

definition budget :: "auth_state \<Rightarrow> nat" where
  "budget s = (if currentAttempt s < 2 \<and> redirectAttempt s \<le> 3
               then (2 - currentAttempt s) + (4 - redirectAttempt s) - 1 else 0)"

subsection \<open>The caller's arrays and the accumulated cookies\<close>

text \<open>
  The arrays of the caller are those of the store \<open>h0\<close> in which \<^verbatim>\<open>authenticate\<close> was
  called. The variable \<^verbatim>\<open>cookies\<close> is private when it points to an array allocated
  since, and the caller's arrays are as they were.
\<close>

definition owned :: "heap \<Rightarrow> auth_state \<Rightarrow> bool" where
  "owned h0 s =
     (length h0 \<le> cookiesV s \<and> cookiesV s < length (arrays s)
      \<and> take (length h0) (arrays s) = h0)"

text \<open>
  The accumulated merged cookies, as a value: starting from the copied contents, each
  request in turn lets the transport and then \<^verbatim>\<open>extractAndMergeCookies\<close> act on the
  current contents. The first argument numbers the transport's calls.
\<close>

primrec accumulated :: "env \<Rightarrow> transport \<Rightarrow> nat \<Rightarrow> request list \<Rightarrow> cookie list \<Rightarrow> cookie list" where
  "accumulated E tr n [] cs = cs"
| "accumulated E tr n (req # reqs) cs =
     (case tr n req cs of
        (Inl e, cs1) \<Rightarrow> accumulated E tr (Suc n) reqs cs1
      | (Inr r, cs1) \<Rightarrow>
          (case extractAndMergeCookies E (rawHeaders r) cs1 of
             (SameArray, cs2) \<Rightarrow> accumulated E tr (Suc n) reqs cs2
           | (NewArray new, cs2) \<Rightarrow> accumulated E tr (Suc n) reqs new))"

section \<open>The identity-provider client: \<^verbatim>\<open>idmsa.ts\<close>\<close>

type_synonym byte = "8 word"

definition WIDGET_KEY :: string where
  "WIDGET_KEY = ''d39ba9916b7251055b22c7f910e2ea796ee65e98b2ddecea8f5dde8d9d1a815d''"

definition IDMSA_HOST :: string where
  "IDMSA_HOST = ''idmsa.apple.com''"

definition IDMSA_UA :: string where
  "IDMSA_UA = ''Mozilla/5.0 (Macintosh; Intel Mac OS X 10_15_7) AppleWebKit/605.1.15 (KHTML, like Gecko) Version/17.6 Safari/605.1.15''"

record TrustedPhoneNumber =
  id' :: "json option"
  numberWithDialCode :: "json option"
  pushMode :: "json option"

record IdmsaSession =
  sessionId :: string
  scnt :: string

record PhoneNumbersResult =
  trustedPhoneNumbers :: "TrustedPhoneNumber list"
  securityCodeCooldown :: bool
  tooManyCodesSent :: bool
  securityCodeLocked :: bool

text \<open>
  Lines 34 to 55. The first argument is the value of \<^verbatim>\<open>crypto.randomUUID()\<close>. The
  headers are listed in the order in which the object gets its keys.
\<close>

definition idmsaHeaders :: "string \<Rightarrow> IdmsaSession option \<Rightarrow> (string \<times> string) list" where
  "idmsaHeaders uuid session =
     [(''User-Agent'', IDMSA_UA),
      (''Content-Type'', ''application/json''),
      (''Accept'', ''application/json''),
      (''X-Apple-Widget-Key'', WIDGET_KEY),
      (''X-Apple-OAuth-Client-Id'', WIDGET_KEY),
      (''X-Apple-OAuth-Client-Type'', ''firstPartyAuth''),
      (''X-Apple-OAuth-Redirect-URI'', ''https://www.icloud.com''),
      (''X-Apple-OAuth-Require-Grant-Code'', ''true''),
      (''X-Apple-OAuth-Response-Mode'', ''web_message''),
      (''X-Apple-OAuth-Response-Type'', ''code''),
      (''X-Apple-OAuth-State'', ''auth-'' @ uuid),
      (''Origin'', ''https://www.icloud.com''),
      (''Referer'', ''https://www.icloud.com/'')]
     @ (case session of
          None \<Rightarrow> []
        | Some s \<Rightarrow> [(''X-Apple-ID-Session-Id'', sessionId s), (''scnt'', scnt s)])"

text \<open>A call that may throw, followed by the rest of the function.\<close>

definition and_then :: "error + 'a \<Rightarrow> ('a \<Rightarrow> error + 'b) \<Rightarrow> error + 'b" where
  "and_then r f = (case r of Inl e \<Rightarrow> Inl e | Inr x \<Rightarrow> f x)"

subsection \<open>Base64\<close>

text \<open>
  \<^verbatim>\<open>btoa\<close> and \<^verbatim>\<open>atob\<close> work on binary strings, whose characters have codes below
  256. The sixty-four characters of the alphabet, by index and back:
\<close>

definition b64_char :: "nat \<Rightarrow> char" where
  "b64_char n =
     char_of (if n < 26 then 65 + n else if n < 52 then 71 + n
              else if n < 62 then n - 4 else if n = 62 then 43 else (47::nat))"

definition b64_value :: "char \<Rightarrow> nat option" where
  "b64_value c =
     (let n = (of_char c :: nat)
      in if 65 \<le> n \<and> n \<le> 90 then Some (n - 65)
         else if 97 \<le> n \<and> n \<le> 122 then Some (n - 71)
         else if 48 \<le> n \<and> n \<le> 57 then Some (n + 4)
         else if n = 43 then Some 62
         else if n = 47 then Some 63
         else None)"

text \<open>\<^verbatim>\<open>btoa\<close> on the character codes: three bytes give four characters, padded at the end.\<close>

fun btoa_codes :: "nat list \<Rightarrow> string" where
  "btoa_codes (a # b # c # rest) =
     [b64_char (a div 4), b64_char ((a mod 4) * 16 + b div 16),
      b64_char ((b mod 16) * 4 + c div 64), b64_char (c mod 64)] @ btoa_codes rest"
| "btoa_codes [a, b] =
     [b64_char (a div 4), b64_char ((a mod 4) * 16 + b div 16),
      b64_char ((b mod 16) * 4), CHR ''='']"
| "btoa_codes [a] = [b64_char (a div 4), b64_char ((a mod 4) * 16), CHR ''='', CHR ''='']"
| "btoa_codes [] = []"

definition btoa :: "string \<Rightarrow> string" where
  "btoa s = btoa_codes (map of_char s)"

text \<open>
  \<^verbatim>\<open>atob\<close> is the forgiving decoder: it drops ASCII white space, drops one or two
  padding characters when the length is a multiple of four, and throws when the length is
  then one more than a multiple of four or a character is outside the alphabet. What is
  left is decoded four characters at a time; two or three characters at the end give one
  or two bytes.
\<close>

definition ascii_whitespace :: "char \<Rightarrow> bool" where
  "ascii_whitespace c = ((of_char c :: nat) \<in> {9, 10, 12, 13, 32})"

definition strip_padding :: "string \<Rightarrow> string" where
  "strip_padding d =
     (if d \<noteq> [] \<and> last d = CHR ''=''
      then (if butlast d \<noteq> [] \<and> last (butlast d) = CHR ''='' then butlast (butlast d)
            else butlast d)
      else d)"

fun decode_sextets :: "nat list \<Rightarrow> nat list" where
  "decode_sextets (a # b # c # d # rest) =
     [a * 4 + b div 16, (b mod 16) * 16 + c div 4, (c mod 4) * 64 + d] @ decode_sextets rest"
| "decode_sextets [a, b, c] = [a * 4 + b div 16, (b mod 16) * 16 + c div 4]"
| "decode_sextets [a, b] = [a * 4 + b div 16]"
| "decode_sextets [a] = []"
| "decode_sextets [] = []"

definition atob :: "string \<Rightarrow> error + string" where
  "atob data =
     (let d1 = filter (\<lambda>c. \<not> ascii_whitespace c) data;
          d2 = (if length d1 mod 4 = 0 then strip_padding d1 else d1)
      in if length d2 mod 4 = 1 then Inl (Error ''InvalidCharacterError'')
         else if list_ex (\<lambda>c. b64_value c = None) d2 then Inl (Error ''InvalidCharacterError'')
         else Inr (map char_of (decode_sextets (map (\<lambda>c. the (b64_value c)) d2))))"

text \<open>Lines 95 to 101.\<close>

definition b64Encode :: "byte list \<Rightarrow> string" where
  "b64Encode buf = btoa (map (\<lambda>byte. char_of (unat byte)) buf)"

text \<open>Lines 103 to 110; storing a character code in a \<^verbatim>\<open>Uint8Array\<close> keeps its low eight bits.\<close>

definition b64Decode :: "string \<Rightarrow> error + byte list" where
  "b64Decode str =
     and_then (atob str) (\<lambda>binary. Inr (map (\<lambda>c. word_of_nat (of_char c)) binary))"

text \<open>The encoding without its padding: what \<^verbatim>\<open>atob\<close> decodes after stripping it.\<close>

fun unpadded :: "nat list \<Rightarrow> string" where
  "unpadded (a # b # c # rest) =
     [b64_char (a div 4), b64_char ((a mod 4) * 16 + b div 16),
      b64_char ((b mod 16) * 4 + c div 64), b64_char (c mod 64)] @ unpadded rest"
| "unpadded [a, b] =
     [b64_char (a div 4), b64_char ((a mod 4) * 16 + b div 16), b64_char ((b mod 16) * 4)]"
| "unpadded [a] = [b64_char (a div 4), b64_char ((a mod 4) * 16)]"
| "unpadded [] = []"

subsection \<open>Password derivation\<close>

text \<open>
  The platform: \<^verbatim>\<open>TextEncoder.encode\<close>, \<^verbatim>\<open>crypto.subtle.digest("SHA-256", _)\<close>,
  the PBKDF2 key stream with HMAC-SHA-256 (the blocks T1, T2, ... of which a derived key is
  a prefix) by key material, salt, iteration count and position, the values of
  \<^verbatim>\<open>crypto.randomUUID()\<close> in the order they are drawn, and \<^verbatim>\<open>JSON.parse\<close>.
\<close>

record platform =
  TextEncoder_encode :: "string \<Rightarrow> byte list"
  digest_SHA256 :: "byte list \<Rightarrow> byte list"
  PBKDF2_SHA256 :: "byte list \<Rightarrow> byte list \<Rightarrow> nat \<Rightarrow> nat \<Rightarrow> byte"
  randomUUID :: "nat \<Rightarrow> string"
  JSON_parse :: "jstext \<Rightarrow> error + json"

text \<open>
  \<^verbatim>\<open>crypto.subtle.deriveBits\<close> for PBKDF2 with SHA-256. The member \<^verbatim>\<open>iterations\<close> of
  \<^verbatim>\<open>Pbkdf2Params\<close> is an \<^verbatim>\<open>[EnforceRange] unsigned long\<close>: converting a number outside
  0 to 4294967295 throws a \<^verbatim>\<open>TypeError\<close> before anything is derived. The derivation
  itself throws an \<^verbatim>\<open>OperationError\<close> when the length is not a multiple of eight or the
  iteration count is zero, and gives the first \<^verbatim>\<open>length\<close> bits of the key stream
  otherwise. The iteration count is an integer here (the conversion truncates a number
  with a fraction).
\<close>

definition deriveBits :: "platform \<Rightarrow> byte list \<Rightarrow> byte list \<Rightarrow> int \<Rightarrow> nat \<Rightarrow> error + byte list" where
  "deriveBits P key salt iterations len =
     (if iterations < 0 \<or> 4294967295 < iterations then Inl (Error ''TypeError'')
      else if len mod 8 \<noteq> 0 \<or> iterations = 0 then Inl (Error ''OperationError'')
      else Inr (map (PBKDF2_SHA256 P key salt (nat iterations)) [0 ..< len div 8]))"

text \<open>
  Modelled from the spec: \<^verbatim>\<open>util.toHex\<close> of the package \<^verbatim>\<open>@foxt/js-srp\<close>, whose code
  is not among the files; section 4.1 of the specification and the comment at line 61 make
  it the lower-case hexadecimal text of the bytes, two digits each.
\<close>

definition hex_digit :: "nat \<Rightarrow> char" where
  "hex_digit n = ''0123456789abcdef'' ! n"

definition toHex :: "byte list \<Rightarrow> string" where
  "toHex bytes = concat (map (\<lambda>b. [hex_digit (unat b div 16), hex_digit (unat b mod 16)]) bytes)"

text \<open>
  Lines 63 to 93. A \<^verbatim>\<open>Uint8Array\<close> is the list of its bytes. Line 87 passes
  \<^verbatim>\<open>salt.buffer\<close>, the whole buffer behind the array: the arrays of this file are made by
  \<^verbatim>\<open>new Uint8Array(n)\<close> and fill their buffer, so the buffer holds the bytes of
  \<^verbatim>\<open>salt\<close>.
\<close>

definition derivePassword ::
  "platform \<Rightarrow> string \<Rightarrow> string \<Rightarrow> byte list \<Rightarrow> int \<Rightarrow> error + byte list" where
  "derivePassword P protocol password' salt iterations =
     (let passBytes = TextEncoder_encode P password';
          passHash = digest_SHA256 P passBytes;
          passHash = (if protocol = ''s2k_fo'' then TextEncoder_encode P (toHex passHash)
                      else passHash)
      in deriveBits P passHash salt iterations 256)"

text \<open>
  The derivation as section 4.1 of the specification words it: \<open>h\<close> is the SHA-256 of the
  UTF-8 password, replaced by the UTF-8 of its lower-case hexadecimal text for
  \<^verbatim>\<open>s2k_fo\<close>; the key is the first 32 bytes of PBKDF2 with SHA-256 over \<open>h\<close>.
\<close>

definition key_material :: "platform \<Rightarrow> string \<Rightarrow> string \<Rightarrow> byte list" where
  "key_material P protocol password' =
     (if protocol = ''s2k_fo''
      then TextEncoder_encode P (toHex (digest_SHA256 P (TextEncoder_encode P password')))
      else digest_SHA256 P (TextEncoder_encode P password'))"

definition derive_spec :: "platform \<Rightarrow> string \<Rightarrow> string \<Rightarrow> byte list \<Rightarrow> nat \<Rightarrow> byte list" where
  "derive_spec P protocol password' salt iterations =
     map (PBKDF2_SHA256 P (key_material P protocol password') salt iterations) [0 ..< 32]"

subsection \<open>Sign-in\<close>

text \<open>
  The SRP client of the package \<^verbatim>\<open>@foxt/js-srp\<close>, as \<^verbatim>\<open>idmsaSignin\<close> uses it:
  \<^verbatim>\<open>srp.newClient\<close>, the public ephemeral \<^verbatim>\<open>client.A\<close>, \<^verbatim>\<open>util.bytesFromBigint\<close>, the
  assignment to \<^verbatim>\<open>client.p\<close>, \<^verbatim>\<open>client.generate\<close> (which may throw), \<^verbatim>\<open>client.M\<close> and
  \<^verbatim>\<open>client.generateM2\<close>. The client object is of a type \<open>'c\<close> of the package's choosing.
\<close>

record 'c srp =
  newClient :: "byte list \<Rightarrow> byte list \<Rightarrow> error + 'c"
  client_A :: "'c \<Rightarrow> nat"
  bytesFromBigint :: "nat \<Rightarrow> byte list"
  set_p :: "'c \<Rightarrow> byte list \<Rightarrow> 'c"
  generate :: "'c \<Rightarrow> byte list \<Rightarrow> byte list \<Rightarrow> error + 'c"
  client_M :: "'c \<Rightarrow> byte list"
  generateM2 :: "'c \<Rightarrow> error + byte list"

text \<open>
  Lines 150 to 156: the body of the init response, read at the type the cast gives it.
  The decoder stands for \<^verbatim>\<open>JSON.parse\<close> followed by the cast.
\<close>

record initData =
  init_iteration :: int
  init_salt :: string
  init_protocol :: string
  init_b :: string
  init_c :: json

type_synonym appleRequest = "request \<Rightarrow> error + response"

definition init_request :: "platform \<Rightarrow> string \<Rightarrow> byte list \<Rightarrow> request" where
  "init_request P email' A =
     \<lparr>req_method = ''POST'', req_host = IDMSA_HOST, req_path = ''/appleauth/auth/signin/init'',
      req_headers = idmsaHeaders (randomUUID P 0) None,
      req_body = JsonBody (JObject [(''a'', JString (b64Encode A)),
                                    (''accountName'', JString email'),
                                    (''protocols'', JArray [JString ''s2k'', JString ''s2k_fo''])])\<rparr>"

definition complete_request :: "platform \<Rightarrow> string \<Rightarrow> json \<Rightarrow> byte list \<Rightarrow> byte list \<Rightarrow> request" where
  "complete_request P email' cv m1 m2 =
     \<lparr>req_method = ''POST'', req_host = IDMSA_HOST,
      req_path = ''/appleauth/auth/signin/complete?isRememberMeEnabled=true'',
      req_headers = idmsaHeaders (randomUUID P 1) None,
      req_body = JsonBody (JObject [(''accountName'', JString email'),
                                    (''c'', cv),
                                    (''m1'', JString (b64Encode m1)),
                                    (''m2'', JString (b64Encode m2)),
                                    (''rememberMe'', JBool False),
                                    (''trustTokens'', JArray [])])\<rparr>"

text \<open>Lines 197 to 211: what is made of the answer to the complete request.\<close>

definition signin_session :: "response \<Rightarrow> error + IdmsaSession" where
  "signin_session completeResp =
     (if status completeResp \<noteq> 409 \<and> status completeResp \<noteq> 200
      then Inl (Error (''IDMSA signin/complete failed: HTTP '' @ show_int (status completeResp)
                       @ '' '' @ statusText completeResp))
      else if \<not> truthy_str (headers completeResp ''x-apple-id-session-id'')
              \<or> \<not> truthy_str (headers completeResp ''scnt'')
      then Inl (Error ''IDMSA signin: missing session headers'')
      else Inr \<lparr>sessionId = nullish (headers completeResp ''x-apple-id-session-id'') [],
                scnt = nullish (headers completeResp ''scnt'') []\<rparr>)"

text \<open>Lines 158 to 176: the derived key and the two proofs.\<close>

definition signin_proofs ::
  "'c srp \<Rightarrow> platform \<Rightarrow> string \<Rightarrow> 'c \<Rightarrow> initData \<Rightarrow> error + (byte list \<times> byte list)" where
  "signin_proofs L P password' client d =
     and_then (b64Decode (init_salt d)) (\<lambda>saltB.
     and_then (b64Decode (init_b d)) (\<lambda>serverB.
     and_then (derivePassword P (init_protocol d) password' saltB (init_iteration d))
       (\<lambda>derivedKey.
     and_then (generate L (set_p L client derivedKey) saltB serverB) (\<lambda>client'.
     and_then (generateM2 L client') (\<lambda>m2. Inr (client_M L client', m2))))))"

text \<open>Lines 116 to 212.\<close>

definition idmsaSignin ::
  "'c srp \<Rightarrow> platform \<Rightarrow> (jstext \<Rightarrow> error + initData) \<Rightarrow> appleRequest
     \<Rightarrow> string \<Rightarrow> string \<Rightarrow> error + IdmsaSession" where
  "idmsaSignin L P parse_init appleRequest email' password' =
     and_then (newClient L (TextEncoder_encode P email') []) (\<lambda>client.
     and_then (appleRequest (init_request P email' (bytesFromBigint L (client_A L client))))
       (\<lambda>initResp.
     if status initResp \<noteq> 200
     then Inl (Error (''IDMSA signin/init failed: HTTP '' @ show_int (status initResp)
                      @ '' '' @ statusText initResp))
     else
     and_then (parse_init (body initResp)) (\<lambda>d.
     and_then (signin_proofs L P password' client d) (\<lambda>(m1, m2).
     and_then (appleRequest (complete_request P email' (init_c d) m1 m2)) signin_session))))"

subsection \<open>Trusted phone numbers\<close>

text \<open>Property read on a value that is neither \<^verbatim>\<open>null\<close> nor \<^verbatim>\<open>undefined\<close>.\<close>

fun jget :: "json \<Rightarrow> string \<Rightarrow> json option" where
  "jget (JObject kvs) k = map_of kvs k"
| "jget v k = None"

text \<open>\<^verbatim>\<open>data.securityCode?.k === true\<close>.\<close>

definition securityCode_flag :: "json \<Rightarrow> string \<Rightarrow> bool" where
  "securityCode_flag data k =
     (case jget data ''securityCode'' of
        None \<Rightarrow> False
      | Some JNull \<Rightarrow> False
      | Some sc \<Rightarrow> jget sc k = Some (JBool True))"

text \<open>
  Lines 232 to 238: \<^verbatim>\<open>(data.trustedPhoneNumbers ?? []).map(...)\<close>. Only an array has
  \<^verbatim>\<open>map\<close>, and reading a property of a \<^verbatim>\<open>null\<close> element throws.
\<close>

definition phone_of :: "json \<Rightarrow> error + TrustedPhoneNumber" where
  "phone_of p =
     (if p = JNull then Inl (Error ''TypeError'')
      else Inr \<lparr>id' = jget p ''id'', numberWithDialCode = jget p ''numberWithDialCode'',
                pushMode = jget p ''pushMode''\<rparr>)"

fun map_phones :: "json list \<Rightarrow> error + TrustedPhoneNumber list" where
  "map_phones [] = Inr []"
| "map_phones (p # ps) =
     and_then (phone_of p) (\<lambda>x. and_then (map_phones ps) (\<lambda>xs. Inr (x # xs)))"

definition phones_of :: "json option \<Rightarrow> error + TrustedPhoneNumber list" where
  "phones_of v =
     (case v of
        None \<Rightarrow> Inr []
      | Some JNull \<Rightarrow> Inr []
      | Some (JArray ps) \<Rightarrow> map_phones ps
      | Some _ \<Rightarrow> Inl (Error ''TypeError''))"

text \<open>Lines 214 to 248.\<close>

definition auth_info_request :: "platform \<Rightarrow> IdmsaSession \<Rightarrow> request" where
  "auth_info_request P session =
     \<lparr>req_method = ''GET'', req_host = IDMSA_HOST, req_path = ''/appleauth/auth'',
      req_headers = idmsaHeaders (randomUUID P 0) (Some session), req_body = NoBody\<rparr>"

definition idmsaGetPhoneNumbers ::
  "platform \<Rightarrow> appleRequest \<Rightarrow> IdmsaSession \<Rightarrow> error + PhoneNumbersResult" where
  "idmsaGetPhoneNumbers P appleRequest session =
     and_then (appleRequest (auth_info_request P session)) (\<lambda>resp.
     if status resp \<noteq> 200
     then Inl (Error (''IDMSA get auth info failed: HTTP '' @ show_int (status resp)
                      @ '' '' @ statusText resp))
     else
     and_then (JSON_parse P (body resp)) (\<lambda>data.
     if data = JNull then Inl (Error ''TypeError'')
     else
     and_then (phones_of (jget data ''trustedPhoneNumbers'')) (\<lambda>phones.
     Inr \<lparr>trustedPhoneNumbers = phones,
          securityCodeCooldown = (securityCode_flag data ''tooManyCodesSent''
                                  \<or> securityCode_flag data ''securityCodeCooldown''),
          tooManyCodesSent = securityCode_flag data ''tooManyCodesSent'',
          securityCodeLocked = securityCode_flag data ''securityCodeLocked''\<rparr>)))"

section \<open>Concrete collaborators and inputs\<close>

text \<open>
  A small instance of every collaborator, on which the definitions above can be run: a
  \<^verbatim>\<open>URL\<close> constructor that accepts \<^verbatim>\<open>https://host/path\<close>, a \<^verbatim>\<open>parsePlist\<close> that knows five
  documents, and a cookie merge that returns a new array.
\<close>

definition ex_URL :: "string \<Rightarrow> url option" where
  "ex_URL s =
     (if take 8 s = ''https://''
      then Some \<lparr>hostname = takeWhile (\<lambda>c. c \<noteq> CHR ''/'') (drop 8 s),
                 pathname = dropWhile (\<lambda>c. c \<noteq> CHR ''/'') (drop 8 s),
                 search = []\<rparr>
      else None)"

definition ex_parsePlist :: "jstext \<Rightarrow> error + pvalue" where
  "ex_parsePlist b =
     (if b = ascii ''locked'' then
        Inr (PDict [(''failureType'', PString ''5020''),
                    (''customerMessage'', PString ''This Apple ID has been locked.'')])
      else if b = ascii ''flake'' then
        Inr (PDict [(''failureType'', PString ''-5000''),
                    (''customerMessage'', PString ''Your Apple ID or password is incorrect.'')])
      else if b = ascii ''flake+dialog'' then
        Inr (PDict [(''failureType'', PString ''-5000''),
                    (''customerMessage'', PString ''Your Apple ID or password is incorrect.''),
                    (''dialog'', PDict [(''explanation'', PString ''Try again later.'')])])
      else if b = ascii ''flake+account'' then
        Inr (PDict [(''failureType'', PString ''-5000''),
                    (''accountInfo'', PDict [(''appleId'', PString ''a@b.c''),
                       (''address'', PDict [(''firstName'', PString ''A''),
                                            (''lastName'', PString ''B'')])]),
                    (''passwordToken'', PString ''tok''),
                    (''dsPersonId'', PNumber ''123456789'')])
      else if b = ascii ''account'' then
        Inr (PDict [(''accountInfo'', PDict [(''appleId'', PString ''a@b.c''),
                       (''address'', PDict [(''firstName'', PString ''A''),
                                            (''lastName'', PString ''B'')])]),
                    (''passwordToken'', PString ''tok''),
                    (''dsPersonId'', PNumber ''123456789'')])
      else Inl (Error ''not a property list''))"

definition ex_env :: env where
  "ex_env =
     \<lparr>defaultAuthURL = ''https://buy.example/auth'',
      fetchBag = (\<lambda>d. Inr ''https://auth.example/fast''),
      new_URL = ex_URL,
      searchParams_set = (\<lambda>u k v. u\<lparr>search := ''?'' @ k @ ''='' @ v\<rparr>),
      parsePlist = ex_parsePlist,
      extractAndMergeCookies = (\<lambda>raw cs. (NewArray (cs @ [length raw]), cs)),
      i18n_t = (\<lambda>k. k),
      i18n_t_status = (\<lambda>k n. k)\<rparr>"

definition ex_args :: args where
  "ex_args = \<lparr>email_in = ''a@b.c'', password_in = ''pw'', code = None,
              existingCookies = None, deviceId = ''0123456789AB'', smsVerified = False\<rparr>"

definition ex_response :: "int \<Rightarrow> (string \<rightharpoonup> string) \<Rightarrow> string \<Rightarrow> response" where
  "ex_response st hs b
     = \<lparr>status = st, statusText = [], headers = hs, rawHeaders = [], body = ascii b\<rparr>"

definition tr_404 :: transport where
  "tr_404 n req cs = (Inr (ex_response 404 Map.empty []), cs)"

text \<open>Transports: each answers every request the same way, or changes after the first call.\<close>

definition tr_locked :: transport where
  "tr_locked n req cs = (Inr (ex_response 200 Map.empty ''locked''), cs)"

definition tr_flake_dialog :: transport where
  "tr_flake_dialog n req cs
     = (if n = 0 then (Inr (ex_response 200 Map.empty ''flake''), cs)
        else (Inr (ex_response 200 Map.empty ''flake+dialog''), cs))"

definition tr_redirect_flake :: transport where
  "tr_redirect_flake n req cs
     = (if n = 0
        then (Inr (ex_response 302 [''location'' \<mapsto> ''https://next.example/login''] []), cs)
        else if n = 1 then (Inr (ex_response 200 Map.empty ''flake''), cs)
        else (Inr (ex_response 200 Map.empty ''flake+dialog''), cs))"

definition tr_flake_account :: transport where
  "tr_flake_account n req cs
     = (if n = 0 then (Inr (ex_response 200 Map.empty ''flake''), cs)
        else (Inr (ex_response 200 Map.empty ''flake+account''), cs))"

definition tr_redirects :: transport where
  "tr_redirects n req cs
     = (Inr (ex_response 302 [''location'' \<mapsto> ''https://next.example/login''] []), cs)"

definition tr_no_location :: transport where
  "tr_no_location n req cs
     = (if n = 0 then (Inr (ex_response 302 Map.empty []), cs)
        else (Inr (ex_response 200 Map.empty ''account''), cs))"

text \<open>
  A merge that appends to the array it is handed, a caller who passes the array at
  address 0, and a transport that writes to the array it is handed.
\<close>

definition ex_env_inplace :: env where
  "ex_env_inplace
     = ex_env\<lparr>extractAndMergeCookies := (\<lambda>raw cs. (SameArray, cs @ [length raw]))\<rparr>"

definition ex_args_cookies :: args where
  "ex_args_cookies = ex_args\<lparr>existingCookies := Some 0\<rparr>"

definition tr_account_writes :: transport where
  "tr_account_writes n req cs
     = (Inr \<lparr>status = 200, statusText = ''OK'', headers = [''pod'' \<mapsto> ''25''],
              rawHeaders = [(''set-cookie'', ''a=1'')], body = ascii ''account''\<rparr>, 99 # cs)"

text \<open>A platform, an SRP client and an identity provider small enough to run.\<close>

definition ex_platform :: platform where
  "ex_platform =
     \<lparr>TextEncoder_encode = map (\<lambda>ch. word_of_nat (of_char ch)),
      digest_SHA256 = (\<lambda>bs. take 32 (bs @ replicate 32 0)),
      PBKDF2_SHA256 = (\<lambda>key s n i. word_of_nat (length key + length s + n + i)),
      randomUUID = (\<lambda>n. ''00000000-0000-4000-8000-000000000000''),
      JSON_parse = (\<lambda>t. if t = ascii ''limits''
                          then Inr (JObject [(''trustedPhoneNumbers'',
                                   JArray [JObject [(''id'', JNumber 1),
                                                    (''numberWithDialCode'', JString ''+1 (***) ***-**42''),
                                                    (''pushMode'', JString ''sms'')]]),
                                 (''securityCode'',
                                   JObject [(''tooManyCodesSent'', JBool True),
                                            (''securityCodeCooldown'', JBool False)])])
                          else if t = ascii ''cooldown''
                          then Inr (JObject [(''securityCode'',
                                   JObject [(''tooManyCodesSent'', JBool False),
                                            (''securityCodeCooldown'', JBool True)])])
                          else if t = ascii ''clear''
                          then Inr (JObject [(''securityCode'',
                                   JObject [(''tooManyCodesSent'', JBool False),
                                            (''securityCodeCooldown'', JBool False)])])
                          else Inl (Error ''SyntaxError''))\<rparr>"

definition ex_srp :: "(byte list \<times> byte list) srp" where
  "ex_srp =
     \<lparr>newClient = (\<lambda>I p. Inr (p, [])),
      client_A = (\<lambda>cl. 5),
      bytesFromBigint = (\<lambda>n. [word_of_nat n]),
      set_p = (\<lambda>cl k. (k, snd cl)),
      generate = (\<lambda>cl s B. if B = [] then Inl (Error ''invalid server public key'')
                            else Inr (fst cl, take 2 (fst cl))),
      client_M = snd,
      generateM2 = (\<lambda>cl. Inr (rev (snd cl)))\<rparr>"

definition ex_parse_init :: "jstext \<Rightarrow> error + initData" where
  "ex_parse_init t =
     (if t = ascii ''init''
      then Inr \<lparr>init_iteration = 20000, init_salt = ''AAECAwQFBgcICQoLDA0ODw=='',
                init_protocol = ''s2k'', init_b = ''AQID'', init_c = JString ''abc''\<rparr>
      else Inl (Error ''SyntaxError''))"

definition ex_idmsa :: appleRequest where
  "ex_idmsa req =
     (if req_path req = ''/appleauth/auth/signin/init''
      then Inr \<lparr>status = 200, statusText = ''OK'', headers = Map.empty, rawHeaders = [],
                body = ascii ''init''\<rparr>
      else Inr \<lparr>status = 200, statusText = ''OK'',
                headers = [''x-apple-id-session-id'' \<mapsto> ''S1'', ''scnt'' \<mapsto> ''T1''],
                rawHeaders = [], body = []\<rparr>)"

text \<open>An identity provider that answers the request for the phone numbers with a given body.\<close>

definition ex_auth_info :: "string \<Rightarrow> appleRequest" where
  "ex_auth_info b req =
     Inr \<lparr>status = 200, statusText = ''OK'', headers = Map.empty, rawHeaders = [],
          body = ascii b\<rparr>"

section \<open>Facts about the sign-in loop\<close>

subsection \<open>Stepping through the loop\<close>

lemma start_state_fields [simp]:
  "cookiesV (start_state c h u) = c"
  "storeFront (start_state c h u) = []"
  "lastError (start_state c h u) = None"
  "requestHost (start_state c h u) = hostname u"
  "requestPath (start_state c h u) = pathname u @ search u"
  "currentAttempt (start_state c h u) = 0"
  "redirectAttempt (start_state c h u) = 0"
  "arrays (start_state c h u) = h"
  "sent (start_state c h u) = []"
  by (simp_all add: start_state_def)

lemma entry_state_fields [simp]:
  "cookiesV (entry_state E a h u) = length h"
  "lastError (entry_state E a h u) = None"
  "currentAttempt (entry_state E a h u) = 0"
  "redirectAttempt (entry_state E a h u) = 0"
  "arrays (entry_state E a h u)
     = h @ [case existingCookies a of Some e \<Rightarrow> h ! e | None \<Rightarrow> []]"
  "sent (entry_state E a h u) = []"
  by (simp_all add: entry_state_def)

lemma authenticate_loop:
  assumes "new_URL E (defaultAuthURL E) = Some d" and "fetchBag E (deviceId a) = Inr authURL"
    and "new_URL E authURL = Some u"
  shows "authenticate E tr a h
           = (fst (auth_loop E tr a (entry_state E a h u)),
              arrays (snd (auth_loop E tr a (entry_state E a h u))),
              sent (snd (auth_loop E tr a (entry_state E a h u))))"
  using assms by (simp add: authenticate_def alloc_def entry_state_def split: prod.splits)

lemma build_request_currentAttempt [simp]:
  "build_request a (s\<lparr>currentAttempt := n\<rparr>) = build_request a s"
  by (simp add: build_request_def)

lemma merge_cookies_fields [simp]:
  "currentAttempt (merge_cookies E r s) = currentAttempt s"
  "redirectAttempt (merge_cookies E r s) = redirectAttempt s"
  "sent (merge_cookies E r s) = sent s"
  "requestHost (merge_cookies E r s) = requestHost s"
  "requestPath (merge_cookies E r s) = requestPath s"
  "lastError (merge_cookies E r s) = lastError s"
  "storeFront (merge_cookies E r s) = storeFront s"
  by (auto simp: merge_cookies_def alloc_def split: prod.splits merged.splits)

lemma read_storeFront_fields [simp]:
  "currentAttempt (read_storeFront r s) = currentAttempt s"
  "redirectAttempt (read_storeFront r s) = redirectAttempt s"
  "sent (read_storeFront r s) = sent s"
  "requestHost (read_storeFront r s) = requestHost s"
  "requestPath (read_storeFront r s) = requestPath s"
  "lastError (read_storeFront r s) = lastError s"
  "arrays (read_storeFront r s) = arrays s"
  "cookiesV (read_storeFront r s) = cookiesV s"
  by (auto simp: read_storeFront_def Let_def split: option.splits)

lemma received_fields [simp]:
  "currentAttempt (received E a r cs s) = currentAttempt s + 1"
  "redirectAttempt (received E a r cs s) = redirectAttempt s"
  "sent (received E a r cs s) = sent s @ [build_request a s]"
  "requestHost (received E a r cs s) = requestHost s"
  "requestPath (received E a r cs s) = requestPath s"
  "lastError (received E a r cs s) = lastError s"
  by (simp_all add: received_def)

lemma build_request_cong:
  "requestHost s' = requestHost s \<Longrightarrow> requestPath s' = requestPath s
   \<Longrightarrow> build_request a s' = build_request a s"
  by (simp add: build_request_def)

lemma attempt_Inr:
  assumes "tr (length (sent s)) (build_request a s) (arrays s ! cookiesV s) = (Inr r, cs)"
  shows "attempt E tr a s = handle_response E a r (received E a r cs s)"
  using assms by (simp add: attempt_def received_def Let_def)

lemma attempt_Inl:
  assumes "tr (length (sent s)) (build_request a s) (arrays s ! cookiesV s) = (Inl e, cs)"
  shows "attempt E tr a s =
           (Throw e, s\<lparr>currentAttempt := currentAttempt s + 1,
                       sent := sent s @ [build_request a s],
                       arrays := (arrays s)[cookiesV s := cs]\<rparr>)"
  using assms by (simp add: attempt_def Let_def)

lemma auth_loop_exit:
  "\<not> (currentAttempt s < 2 \<and> redirectAttempt s \<le> 3) \<Longrightarrow>
   auth_loop E tr a s
     = (Inl (nullish (lastError s) (Error (i18n_t E ''errors.auth.unknownReason''))), s)"
  by (subst auth_loop.simps) auto

lemma auth_loop_Return:
  "currentAttempt s < 2 \<Longrightarrow> redirectAttempt s \<le> 3 \<Longrightarrow> attempt E tr a s = (Return acct, s')
   \<Longrightarrow> auth_loop E tr a s = (Inr acct, s')"
  by (subst auth_loop.simps) simp

lemma auth_loop_Continue:
  "currentAttempt s < 2 \<Longrightarrow> redirectAttempt s \<le> 3 \<Longrightarrow> attempt E tr a s = (Continue, s')
   \<Longrightarrow> auth_loop E tr a s = auth_loop E tr a s'"
  by (subst auth_loop.simps) simp

lemma auth_loop_Throw_signal:
  "currentAttempt s < 2 \<Longrightarrow> redirectAttempt s \<le> 3
   \<Longrightarrow> attempt E tr a s = (Throw (AuthenticationError m c), s')
   \<Longrightarrow> auth_loop E tr a s = (Inl (AuthenticationError m c), s')"
  by (subst auth_loop.simps) simp

lemma auth_loop_Throw_caught:
  "currentAttempt s < 2 \<Longrightarrow> redirectAttempt s \<le> 3 \<Longrightarrow> attempt E tr a s = (Throw (Error m), s')
   \<Longrightarrow> auth_loop E tr a s = auth_loop E tr a (s'\<lparr>lastError := Some (Error m)\<rparr>)"
  by (subst auth_loop.simps) simp

lemma attempt_answered:
  assumes "fst (tr (length (sent s)) (build_request a s) (arrays s ! cookiesV s)) = Inr r"
  obtains cs where "attempt E tr a s = handle_response E a r (received E a r cs s)"
proof -
  from assms obtain cs where
    "tr (length (sent s)) (build_request a s) (arrays s ! cookiesV s) = (Inr r, cs)"
    by (cases "tr (length (sent s)) (build_request a s) (arrays s ! cookiesV s)") auto
  from attempt_Inr [where tr = tr and s = s and a = a and E = E, OF this] that show thesis
    by blast
qed

lemma attempt_thrown:
  assumes "fst (tr (length (sent s)) (build_request a s) (arrays s ! cookiesV s)) = Inl e"
  obtains s' where "attempt E tr a s = (Throw e, s')"
    and "currentAttempt s' = currentAttempt s + 1" and "redirectAttempt s' = redirectAttempt s"
    and "sent s' = sent s @ [build_request a s]"
    and "requestHost s' = requestHost s" and "requestPath s' = requestPath s"
proof -
  from assms obtain cs where
    "tr (length (sent s)) (build_request a s) (arrays s ! cookiesV s) = (Inl e, cs)"
    by (cases "tr (length (sent s)) (build_request a s) (arrays s ! cookiesV s)") auto
  from attempt_Inl [where tr = tr and s = s and a = a and E = E, OF this] that show thesis
    by simp
qed

lemma handle_response_plist:
  assumes "status r \<noteq> 302" and "\<not> (status r = 404 \<and> \<not> truthy_str (code a))"
    and "\<not> trim_empty (body r)" and "parsePlist E (body r) = Inr d"
  shows "handle_response E a r s = handle_plist E a (read_pod r) d s"
  using assms by (auto simp: handle_response_def)

lemma handle_plist_retry:
  assumes "get_prop d ''failureType'' = Some (PString ''-5000'')" and "currentAttempt s = 1"
  shows "handle_plist E a p d s = (Continue, s)"
  using assms by (simp add: handle_plist_def)

lemma handle_plist_locked:
  assumes "get_prop d ''failureType'' = Some (PString ''5020'')"
  shows "handle_plist E a p d s
           = (Throw (Error (String_js (nullish (failureMessage d) (PString ''Account locked'')))), s)"
  using assms by (simp add: handle_plist_def)

lemma handle_response_not_redirect:
  assumes "status r \<noteq> 302" and "handle_response E a r s = (out, s')"
  shows "s' = s" and "currentAttempt s \<noteq> 1 \<Longrightarrow> out \<noteq> Continue"
  using assms
  by (auto simp: handle_response_def handle_plist_def split: if_splits sum.splits)

text \<open>The second credential attempt ends the call, whatever the answer, unless it is a redirect.\<close>

lemma auth_loop_last_attempt:
  assumes c: "currentAttempt s = 1" "redirectAttempt s \<le> 3"
    and nr: "\<forall>r. fst (tr (length (sent s)) (build_request a s) (arrays s ! cookiesV s)) = Inr r
               \<longrightarrow> status r \<noteq> 302"
  shows "sent (snd (auth_loop E tr a s)) = sent s @ [build_request a s]"
proof (cases "fst (tr (length (sent s)) (build_request a s) (arrays s ! cookiesV s))")
  case (Inl e)
  then obtain s' where s': "attempt E tr a s = (Throw e, s')" "currentAttempt s' = currentAttempt s + 1"
      "sent s' = sent s @ [build_request a s]"
    by (rule attempt_thrown)
  show ?thesis
  proof (cases e)
    case (AuthenticationError m cr)
    with s' c auth_loop_Throw_signal [of s E tr a m cr s'] show ?thesis by simp
  next
    case (Error m)
    with s' c auth_loop_Throw_caught [of s E tr a m s'] show ?thesis
      by (simp add: auth_loop_exit)
  qed
next
  case (Inr r)
  then obtain cs where at: "attempt E tr a s = handle_response E a r (received E a r cs s)"
    by (rule attempt_answered)
  obtain out s' where hr: "handle_response E a r (received E a r cs s) = (out, s')"
    by (cases "handle_response E a r (received E a r cs s)") auto
  from Inr nr have "status r \<noteq> 302" by simp
  from handle_response_not_redirect [OF this hr] c
  have s': "s' = received E a r cs s" and nc: "out \<noteq> Continue" by simp_all
  show ?thesis
  proof (cases out)
    case (Return acct)
    with at hr c auth_loop_Return [of s E tr a acct s'] s' show ?thesis by simp
  next
    case (Throw e)
    show ?thesis
    proof (cases e)
      case (AuthenticationError m cr)
      with Throw at hr c auth_loop_Throw_signal [of s E tr a m cr s'] s' show ?thesis by simp
    next
      case (Error m)
      with Throw at hr c auth_loop_Throw_caught [of s E tr a m s'] s' show ?thesis
        by (simp add: auth_loop_exit)
    qed
  next
    case Continue
    with nc show ?thesis by simp
  qed
qed

lemma auth_loop_final_Throw:
  assumes "currentAttempt s < 2" "redirectAttempt s \<le> 3" "attempt E tr a s = (Throw e, s')"
    "currentAttempt s' = 2"
  shows "fst (auth_loop E tr a s) = Inl e" and "sent (snd (auth_loop E tr a s)) = sent s'"
proof -
  show "fst (auth_loop E tr a s) = Inl e"
  proof (cases e)
    case (AuthenticationError m cr)
    with assms auth_loop_Throw_signal [of s E tr a m cr s'] show ?thesis by simp
  next
    case (Error m)
    with assms auth_loop_Throw_caught [of s E tr a m s'] show ?thesis
      by (simp add: auth_loop_exit)
  qed
  show "sent (snd (auth_loop E tr a s)) = sent s'"
  proof (cases e)
    case (AuthenticationError m cr)
    with assms auth_loop_Throw_signal [of s E tr a m cr s'] show ?thesis by simp
  next
    case (Error m)
    with assms auth_loop_Throw_caught [of s E tr a m s'] show ?thesis
      by (simp add: auth_loop_exit)
  qed
qed

text \<open>What lines 150 to 196 make of a document whose \<^verbatim>\<open>failureType\<close> is \<^verbatim>\<open>"-5000"\<close>.\<close>

lemma handle_plist_flake_final:
  assumes "get_prop d ''failureType'' = Some (PString ''-5000'')" and "currentAttempt s \<noteq> 1"
  shows "\<not> truthy (get_prop d ''accountInfo'') \<Longrightarrow>
           handle_plist E a p d s
             = (Throw (Error (String_js (nullish (failureMessage d)
                  (PString (i18n_t E ''errors.auth.missingAccountInfo''))))), s)"
    and "truthy (get_prop d ''accountInfo'') \<Longrightarrow>
         \<not> truthy (opt_prop (get_prop d ''accountInfo'') ''address'') \<Longrightarrow>
           handle_plist E a p d s
             = (Throw (Error (String_js (nullish (failureMessage d)
                  (PString (i18n_t E ''errors.auth.missingAddress''))))), s)"
    and "truthy (get_prop d ''accountInfo'') \<Longrightarrow>
         truthy (opt_prop (get_prop d ''accountInfo'') ''address'') \<Longrightarrow>
           \<exists>acct. handle_plist E a p d s = (Return acct, s)"
  using assms by (simp_all add: handle_plist_def)

lemma handle_redirect_followed:
  assumes "truthy_str (headers r ''location'')"
    and "new_URL E (nullish (headers r ''location'') []) = Some u'"
  shows "handle_redirect E r s
           = (Continue, s\<lparr>requestHost := hostname u', requestPath := pathname u' @ search u',
                          currentAttempt := currentAttempt s - 1,
                          redirectAttempt := redirectAttempt s + 1\<rparr>)"
  using assms by (simp add: handle_redirect_def)

lemma handle_redirect_no_location:
  assumes "\<not> truthy_str (headers r ''location'')"
  shows "handle_redirect E r s = (Throw (Error (i18n_t E ''errors.auth.redirectLocation'')), s)"
  using assms by (simp add: handle_redirect_def)

lemma attempt_redirect:
  assumes "fst (tr (length (sent s)) (build_request a s) (arrays s ! cookiesV s)) = Inr r"
    and "status r = 302" and "truthy_str (headers r ''location'')"
    and "new_URL E (nullish (headers r ''location'') []) = Some u'"
  obtains s' where "attempt E tr a s = (Continue, s')"
    and "currentAttempt s' = currentAttempt s" and "redirectAttempt s' = redirectAttempt s + 1"
    and "requestHost s' = hostname u'" and "requestPath s' = pathname u' @ search u'"
    and "sent s' = sent s @ [build_request a s]" and "lastError s' = lastError s"
proof -
  from assms(1) obtain cs where
    at: "attempt E tr a s = handle_response E a r (received E a r cs s)"
    by (rule attempt_answered)
  let ?s' = "(received E a r cs s)\<lparr>requestHost := hostname u',
      requestPath := pathname u' @ search u',
      currentAttempt := currentAttempt (received E a r cs s) - 1,
      redirectAttempt := redirectAttempt (received E a r cs s) + 1\<rparr>"
  from at assms(2-4) have "attempt E tr a s = (Continue, ?s')"
    by (simp add: handle_response_def handle_redirect_followed)
  then show thesis by (rule that) simp_all
qed

lemma attempt_redirect_no_location:
  assumes "fst (tr (length (sent s)) (build_request a s) (arrays s ! cookiesV s)) = Inr r"
    and "status r = 302" and "\<not> truthy_str (headers r ''location'')"
  obtains s' where "attempt E tr a s = (Throw (Error (i18n_t E ''errors.auth.redirectLocation'')), s')"
    and "currentAttempt s' = currentAttempt s + 1" and "redirectAttempt s' = redirectAttempt s"
    and "requestHost s' = requestHost s" and "requestPath s' = requestPath s"
    and "sent s' = sent s @ [build_request a s]"
proof -
  from assms(1) obtain cs where
    at: "attempt E tr a s = handle_response E a r (received E a r cs s)"
    by (rule attempt_answered)
  from at assms(2-3)
  have "attempt E tr a s
          = (Throw (Error (i18n_t E ''errors.auth.redirectLocation'')), received E a r cs s)"
    by (simp add: handle_response_def handle_redirect_no_location)
  then show thesis by (rule that) simp_all
qed

text \<open>Every run of the loop body hands exactly one request to the transport.\<close>

lemma handle_response_sent:
  assumes "handle_response E a r s = (out, s')"
  shows "sent s' = sent s"
  using assms
  by (auto simp: handle_response_def handle_redirect_def handle_plist_def
      split: if_splits sum.splits option.splits)

lemma attempt_sent:
  assumes "attempt E tr a s = (out, s')"
  shows "sent s' = sent s @ [build_request a s]"
proof (cases "tr (length (sent s)) (build_request a s) (arrays s ! cookiesV s)")
  case (Pair x cs)
  show ?thesis
  proof (cases x)
    case (Inl e)
    with Pair assms attempt_Inl [of tr s a e cs E] show ?thesis by auto
  next
    case (Inr r)
    with Pair assms attempt_Inr [of tr s a r cs E]
    have "handle_response E a r (received E a r cs s) = (out, s')" by simp
    from handle_response_sent [OF this] show ?thesis by simp
  qed
qed

lemma budget_step:
  assumes "currentAttempt s < 2" "redirectAttempt s \<le> 3"
    and "(currentAttempt s' = currentAttempt s \<and> redirectAttempt s' = redirectAttempt s + 1)
         \<or> (currentAttempt s' = currentAttempt s + 1 \<and> redirectAttempt s' = redirectAttempt s)"
  shows "Suc (budget s') \<le> budget s"
  using assms by (auto simp: budget_def)

lemma auth_loop_requests_bound:
  "length (sent (snd (auth_loop E tr a s))) \<le> length (sent s) + budget s"
proof (induction "(2 - currentAttempt s) + (4 - redirectAttempt s)" arbitrary: s rule: less_induct)
  case less
  show ?case
  proof (cases "currentAttempt s < 2 \<and> redirectAttempt s \<le> 3")
    case False
    then show ?thesis by (simp add: auth_loop_exit)
  next
    case True
    obtain out s' where at: "attempt E tr a s = (out, s')"
      by (cases "attempt E tr a s") auto
    note snt = attempt_sent [OF at]
    from budget_step [OF _ _ attempt_counters [OF at]] True
    have b: "Suc (budget s') \<le> budget s" by simp
    from attempt_counters [OF at] True
    have m: "(2 - currentAttempt s') + (4 - redirectAttempt s')
               < (2 - currentAttempt s) + (4 - redirectAttempt s)"
      by auto
    show ?thesis
    proof (cases out)
      case (Return acct)
      with True at auth_loop_Return [of s E tr a acct s'] snt b show ?thesis by simp
    next
      case (Throw e)
      show ?thesis
      proof (cases e)
        case (AuthenticationError m cr)
        with Throw True at auth_loop_Throw_signal [of s E tr a m cr s'] snt b show ?thesis
          by simp
      next
        case (Error msg)
        have bl: "budget (s'\<lparr>lastError := Some e\<rparr>) = budget s'" by (simp add: budget_def)
        from less [of "s'\<lparr>lastError := Some e\<rparr>"] m
        have "length (sent (snd (auth_loop E tr a (s'\<lparr>lastError := Some e\<rparr>))))
                \<le> length (sent s') + budget s'"
          by (simp add: bl)
        with Error Throw True at auth_loop_Throw_caught [of s E tr a msg s'] snt b show ?thesis
          by simp
      qed
    next
      case Continue
      from less [of s'] m
      have "length (sent (snd (auth_loop E tr a s'))) \<le> length (sent s') + budget s'"
        by simp
      with Continue True at auth_loop_Continue [of s E tr a s'] snt b show ?thesis by simp
    qed
  qed
qed

lemma authenticate_requests_bound: "length (snd (snd (authenticate E tr a h))) \<le> 5"
proof -
  have "length (sent s) \<le> 5" if "auth_loop E tr a (start_state c h1 u) = (r, s)" for c h1 u r s
    using auth_loop_requests_bound [of E tr a "start_state c h1 u"] that
    by (simp add: budget_def)
  then show ?thesis
    by (auto simp: authenticate_def alloc_def split: prod.splits option.splits sum.splits)
qed

lemma redirect_chain:
  assumes red: "\<forall>n<4. (\<forall>req cs. fst (tr n req cs) = Inr (rs n)) \<and> status (rs n) = 302
                  \<and> truthy_str (headers (rs n) ''location'')
                  \<and> new_URL E (nullish (headers (rs n) ''location'') []) \<noteq> None"
    and s: "redirectAttempt s = length (sent s)" "length (sent s) \<le> 4" "currentAttempt s < 2"
  shows "fst (auth_loop E tr a s)
           = Inl (nullish (lastError s) (Error (i18n_t E ''errors.auth.unknownReason'')))
         \<and> length (sent (snd (auth_loop E tr a s))) = 4"
  using s
proof (induction "4 - length (sent s)" arbitrary: s)
  case 0
  then show ?case by (simp add: auth_loop_exit)
next
  case (Suc k)
  let ?n = "length (sent s)"
  from Suc have n: "?n < 4" by simp
  with red have ans: "fst (tr ?n (build_request a s) (arrays s ! cookiesV s)) = Inr (rs ?n)"
    and st: "status (rs ?n) = 302" and loc: "truthy_str (headers (rs ?n) ''location'')"
    and "new_URL E (nullish (headers (rs ?n) ''location'') []) \<noteq> None"
    by simp_all
  then obtain u' where u': "new_URL E (nullish (headers (rs ?n) ''location'') []) = Some u'"
    by auto
  from ans st loc u' obtain s' where s': "attempt E tr a s = (Continue, s')"
    "currentAttempt s' = currentAttempt s" "redirectAttempt s' = redirectAttempt s + 1"
    "sent s' = sent s @ [build_request a s]" "lastError s' = lastError s"
    by (rule attempt_redirect)
  from Suc.prems n s'(1) have "auth_loop E tr a s = auth_loop E tr a s'"
    by (intro auth_loop_Continue) simp_all
  moreover from Suc.hyps(2) Suc.prems s' n
  have "fst (auth_loop E tr a s')
           = Inl (nullish (lastError s') (Error (i18n_t E ''errors.auth.unknownReason'')))
         \<and> length (sent (snd (auth_loop E tr a s'))) = 4"
    by (intro Suc.hyps(1)) simp_all
  ultimately show ?case using s'(5) by simp
qed

text \<open>The log of requests only grows, and a run of the loop body adds a request.\<close>

lemma auth_loop_sent_mono:
  "length (sent s) \<le> length (sent (snd (auth_loop E tr a s)))"
proof (induction "(2 - currentAttempt s) + (4 - redirectAttempt s)" arbitrary: s rule: less_induct)
  case less
  show ?case
  proof (cases "currentAttempt s < 2 \<and> redirectAttempt s \<le> 3")
    case False
    then show ?thesis by (simp add: auth_loop_exit)
  next
    case True
    obtain out s' where at: "attempt E tr a s = (out, s')"
      by (cases "attempt E tr a s") auto
    note snt = attempt_sent [OF at]
    from attempt_counters [OF at] True
    have m: "(2 - currentAttempt s') + (4 - redirectAttempt s')
               < (2 - currentAttempt s) + (4 - redirectAttempt s)"
      by auto
    show ?thesis
    proof (cases out)
      case (Return acct)
      with True at auth_loop_Return [of s E tr a acct s'] snt show ?thesis by simp
    next
      case (Throw e)
      show ?thesis
      proof (cases e)
        case (AuthenticationError msg cr)
        with Throw True at auth_loop_Throw_signal [of s E tr a msg cr s'] snt show ?thesis
          by simp
      next
        case (Error msg)
        from less [of "s'\<lparr>lastError := Some e\<rparr>"] m
        have "length (sent s') \<le> length (sent (snd (auth_loop E tr a (s'\<lparr>lastError := Some e\<rparr>))))"
          by simp
        with Error Throw True at auth_loop_Throw_caught [of s E tr a msg s'] snt show ?thesis
          by simp
      qed
    next
      case Continue
      from less [of s'] m
      have "length (sent s') \<le> length (sent (snd (auth_loop E tr a s')))" by simp
      with Continue True at auth_loop_Continue [of s E tr a s'] snt show ?thesis by simp
    qed
  qed
qed

lemma auth_loop_sent_prefix:
  "\<exists>rest. sent (snd (auth_loop E tr a s)) = sent s @ rest"
proof (induction "(2 - currentAttempt s) + (4 - redirectAttempt s)" arbitrary: s rule: less_induct)
  case less
  show ?case
  proof (cases "currentAttempt s < 2 \<and> redirectAttempt s \<le> 3")
    case False
    then show ?thesis by (simp add: auth_loop_exit)
  next
    case True
    obtain out s' where at: "attempt E tr a s = (out, s')"
      by (cases "attempt E tr a s") auto
    note snt = attempt_sent [OF at]
    from attempt_counters [OF at] True
    have m: "(2 - currentAttempt s') + (4 - redirectAttempt s')
               < (2 - currentAttempt s) + (4 - redirectAttempt s)"
      by auto
    show ?thesis
    proof (cases out)
      case (Return acct)
      with True at auth_loop_Return [of s E tr a acct s'] snt show ?thesis by simp
    next
      case (Throw e)
      show ?thesis
      proof (cases e)
        case (AuthenticationError msg cr)
        with Throw True at auth_loop_Throw_signal [of s E tr a msg cr s'] snt show ?thesis
          by simp
      next
        case (Error msg)
        from less [of "s'\<lparr>lastError := Some e\<rparr>"] m
        obtain rest where
          "sent (snd (auth_loop E tr a (s'\<lparr>lastError := Some e\<rparr>))) = sent s' @ rest"
          by auto
        with Error Throw True at auth_loop_Throw_caught [of s E tr a msg s'] snt show ?thesis
          by simp
      qed
    next
      case Continue
      from less [of s'] m
      obtain rest where "sent (snd (auth_loop E tr a s')) = sent s' @ rest" by auto
      with Continue True at auth_loop_Continue [of s E tr a s'] snt show ?thesis by simp
    qed
  qed
qed

text \<open>While the loop condition holds, the request of the current state is the next one sent.\<close>

lemma auth_loop_sends:
  assumes "currentAttempt s < 2" and "redirectAttempt s \<le> 3"
  shows "\<exists>rest. sent (snd (auth_loop E tr a s)) = sent s @ [build_request a s] @ rest"
proof -
  obtain out s' where at: "attempt E tr a s = (out, s')"
    by (cases "attempt E tr a s") auto
  note snt = attempt_sent [OF at]
  show ?thesis
  proof (cases out)
    case (Return acct)
    with assms at auth_loop_Return [of s E tr a acct s'] snt show ?thesis by simp
  next
    case (Throw e)
    show ?thesis
    proof (cases e)
      case (AuthenticationError msg cr)
      with Throw assms at auth_loop_Throw_signal [of s E tr a msg cr s'] snt show ?thesis
        by simp
    next
      case (Error msg)
      obtain rest where
        "sent (snd (auth_loop E tr a (s'\<lparr>lastError := Some e\<rparr>)))
           = sent (s'\<lparr>lastError := Some e\<rparr>) @ rest"
        using auth_loop_sent_prefix [of E tr a "s'\<lparr>lastError := Some e\<rparr>"] by auto
      with Error Throw assms at auth_loop_Throw_caught [of s E tr a msg s'] snt show ?thesis
        by simp
    qed
  next
    case Continue
    obtain rest where "sent (snd (auth_loop E tr a s')) = sent s' @ rest"
      using auth_loop_sent_prefix [of E tr a s'] by auto
    with Continue assms at auth_loop_Continue [of s E tr a s'] snt show ?thesis by simp
  qed
qed

text \<open>
  For every transport: when the first answer is a locked-account document, the error is
  caught and a second request follows.
\<close>

lemma locked_account_second_request:
  assumes bag: "new_URL E (defaultAuthURL E) = Some d0" "fetchBag E (deviceId a) = Inr authURL"
      "new_URL E authURL = Some u"
    and a1: "\<forall>req cs. fst (tr 0 req cs) = Inr r1"
    and p1: "status r1 \<noteq> 302" "\<not> (status r1 = 404 \<and> \<not> truthy_str (code a))"
      "\<not> trim_empty (body r1)" "parsePlist E (body r1) = Inr d1"
      "get_prop d1 ''failureType'' = Some (PString ''5020'')"
  shows "2 \<le> length (snd (snd (authenticate E tr a h)))"
proof -
  let ?s0 = "entry_state E a h u"
  from a1 have "fst (tr (length (sent ?s0)) (build_request a ?s0) (arrays ?s0 ! cookiesV ?s0)) = Inr r1"
    by simp
  then obtain cs1 where at1: "attempt E tr a ?s0 = handle_response E a r1 (received E a r1 cs1 ?s0)"
    by (rule attempt_answered)
  let ?s1 = "received E a r1 cs1 ?s0"
  let ?m = "String_js (nullish (failureMessage d1) (PString ''Account locked''))"
  let ?s1' = "?s1\<lparr>lastError := Some (Error ?m)\<rparr>"
  from at1 p1 have "attempt E tr a ?s0 = (Throw (Error ?m), ?s1)"
    by (simp add: handle_response_plist handle_plist_locked)
  then have loop1: "auth_loop E tr a ?s0 = auth_loop E tr a ?s1'"
    by (intro auth_loop_Throw_caught) simp_all
  obtain out s2 where at2: "attempt E tr a ?s1' = (out, s2)"
    by (cases "attempt E tr a ?s1'") auto
  from attempt_sent [OF at2] have two: "length (sent s2) = 2" by simp
  have g: "currentAttempt ?s1' < 2" "redirectAttempt ?s1' \<le> 3" by simp_all
  have "2 \<le> length (sent (snd (auth_loop E tr a ?s1')))"
  proof (cases out)
    case (Return acct)
    with at2 g auth_loop_Return [of ?s1' E tr a acct s2] two show ?thesis by simp
  next
    case (Throw e)
    show ?thesis
    proof (cases e)
      case (AuthenticationError msg cr)
      with Throw at2 g auth_loop_Throw_signal [of ?s1' E tr a msg cr s2] two show ?thesis
        by simp
    next
      case (Error msg)
      with Throw at2 g auth_loop_Throw_caught [of ?s1' E tr a msg s2] two
        auth_loop_sent_mono [of "s2\<lparr>lastError := Some (Error msg)\<rparr>" E tr a]
      show ?thesis by simp
    qed
  next
    case Continue
    with at2 g auth_loop_Continue [of ?s1' E tr a s2] two auth_loop_sent_mono [of s2 E tr a]
    show ?thesis by simp
  qed
  with loop1 show ?thesis by (simp add: authenticate_loop [OF bag])
qed

subsection \<open>The store\<close>

lemma accumulated_append:
  "accumulated E tr n (xs @ ys) cs
     = accumulated E tr (n + length xs) ys (accumulated E tr n xs cs)"
  by (induction xs arbitrary: n cs) (auto split: prod.splits sum.splits merged.splits)

lemma owned_merge_cookies:
  assumes "owned h0 s"
  shows "owned h0 (merge_cookies E r s)"
    and "arrays (merge_cookies E r s) ! cookiesV (merge_cookies E r s)
           = (case extractAndMergeCookies E (rawHeaders r) (arrays s ! cookiesV s) of
                (SameArray, cs2) \<Rightarrow> cs2 | (NewArray new, cs2) \<Rightarrow> new)"
  using assms
  by (auto simp: owned_def merge_cookies_def alloc_def nth_append
      split: prod.splits merged.splits)

lemma handle_response_arrays:
  assumes "handle_response E a r s = (out, s')"
  shows "arrays s' = arrays s" and "cookiesV s' = cookiesV s"
    and "out = Return acct \<Longrightarrow> cookies acct = cookiesV s"
  using assms
  by (auto simp: handle_response_def handle_redirect_def handle_plist_def
      split: if_splits sum.splits option.splits)

lemma owned_attempt:
  assumes p: "owned h0 s" and at: "attempt E tr a s = (out, s')"
  shows "owned h0 s'"
    and "arrays s' ! cookiesV s'
           = accumulated E tr (length (sent s)) [build_request a s] (arrays s ! cookiesV s)"
    and "out = Return acct \<Longrightarrow> cookies acct = cookiesV s'"
proof -
  obtain x cs where tr: "tr (length (sent s)) (build_request a s) (arrays s ! cookiesV s) = (x, cs)"
    by (cases "tr (length (sent s)) (build_request a s) (arrays s ! cookiesV s)") auto
  let ?s2 = "s\<lparr>currentAttempt := currentAttempt s + 1, sent := sent s @ [build_request a s],
                arrays := (arrays s)[cookiesV s := cs]\<rparr>"
  from p have p2: "owned h0 ?s2" and c2: "arrays ?s2 ! cookiesV ?s2 = cs"
    by (simp_all add: owned_def)
  have "owned h0 s' \<and> arrays s' ! cookiesV s'
           = accumulated E tr (length (sent s)) [build_request a s] (arrays s ! cookiesV s)
        \<and> (out = Return acct \<longrightarrow> cookies acct = cookiesV s')"
  proof (cases x)
    case (Inl e)
    with tr at attempt_Inl [of tr s a e cs E] p2 c2 show ?thesis by auto
  next
    case (Inr r)
    let ?s3 = "received E a r cs s"
    from Inr tr at attempt_Inr [of tr s a r cs E]
    have hr: "handle_response E a r ?s3 = (out, s')" by simp
    have p3: "owned h0 ?s3"
      using owned_merge_cookies(1) [OF p2, of E r]
      by (simp add: received_def owned_def)
    have c3: "arrays ?s3 ! cookiesV ?s3
                = (case extractAndMergeCookies E (rawHeaders r) cs of
                     (SameArray, cs2) \<Rightarrow> cs2 | (NewArray new, cs2) \<Rightarrow> new)"
      using owned_merge_cookies(2) [OF p2, of E r] c2 by (simp add: received_def)
    from handle_response_arrays [OF hr] p3 c3 tr Inr show ?thesis
      by (auto simp: owned_def split: prod.splits merged.splits)
  qed
  then show "owned h0 s'"
    and "arrays s' ! cookiesV s'
           = accumulated E tr (length (sent s)) [build_request a s] (arrays s ! cookiesV s)"
    and "out = Return acct \<Longrightarrow> cookies acct = cookiesV s'"
    by simp_all
qed

lemma owned_lastError [simp]: "owned h0 (s\<lparr>lastError := e\<rparr>) = owned h0 s"
  by (simp add: owned_def)

lemma owned_auth_loop:
  assumes "owned h0 s" and "arrays s ! cookiesV s = accumulated E tr 0 (sent s) c0"
  shows "owned h0 (snd (auth_loop E tr a s))
         \<and> arrays (snd (auth_loop E tr a s)) ! cookiesV (snd (auth_loop E tr a s))
             = accumulated E tr 0 (sent (snd (auth_loop E tr a s))) c0
         \<and> (\<forall>acct. fst (auth_loop E tr a s) = Inr acct
               \<longrightarrow> cookies acct = cookiesV (snd (auth_loop E tr a s)))"
  using assms
proof (induction "(2 - currentAttempt s) + (4 - redirectAttempt s)" arbitrary: s rule: less_induct)
  case less
  show ?case
  proof (cases "currentAttempt s < 2 \<and> redirectAttempt s \<le> 3")
    case False
    with less.prems show ?thesis by (simp add: auth_loop_exit)
  next
    case True
    obtain out s' where at: "attempt E tr a s = (out, s')"
      by (cases "attempt E tr a s") auto
    note pa = owned_attempt [OF less.prems(1) at]
    from attempt_sent [OF at] pa(2) less.prems(2)
    have acc: "arrays s' ! cookiesV s' = accumulated E tr 0 (sent s') c0"
      by (simp add: accumulated_append)
    from attempt_counters [OF at] True
    have m: "(2 - currentAttempt s') + (4 - redirectAttempt s')
               < (2 - currentAttempt s) + (4 - redirectAttempt s)"
      by auto
    show ?thesis
    proof (cases out)
      case (Return acct)
      with True at auth_loop_Return [of s E tr a acct s'] pa(1) pa(3) [of acct] acc
      show ?thesis by simp
    next
      case (Throw e)
      show ?thesis
      proof (cases e)
        case (AuthenticationError msg cr)
        with Throw True at auth_loop_Throw_signal [of s E tr a msg cr s'] pa(1) acc
        show ?thesis by simp
      next
        case (Error msg)
        from less.hyps [of "s'\<lparr>lastError := Some e\<rparr>"] m pa(1) acc
        have "owned h0 (snd (auth_loop E tr a (s'\<lparr>lastError := Some e\<rparr>)))
         \<and> arrays (snd (auth_loop E tr a (s'\<lparr>lastError := Some e\<rparr>)))
               ! cookiesV (snd (auth_loop E tr a (s'\<lparr>lastError := Some e\<rparr>)))
             = accumulated E tr 0 (sent (snd (auth_loop E tr a (s'\<lparr>lastError := Some e\<rparr>)))) c0
         \<and> (\<forall>acct. fst (auth_loop E tr a (s'\<lparr>lastError := Some e\<rparr>)) = Inr acct
               \<longrightarrow> cookies acct = cookiesV (snd (auth_loop E tr a (s'\<lparr>lastError := Some e\<rparr>))))"
          by simp
        with Error Throw True at auth_loop_Throw_caught [of s E tr a msg s'] show ?thesis
          by simp
      qed
    next
      case Continue
      from less.hyps [of s'] m pa(1) acc
      have "owned h0 (snd (auth_loop E tr a s'))
         \<and> arrays (snd (auth_loop E tr a s')) ! cookiesV (snd (auth_loop E tr a s'))
             = accumulated E tr 0 (sent (snd (auth_loop E tr a s'))) c0
         \<and> (\<forall>acct. fst (auth_loop E tr a s') = Inr acct
               \<longrightarrow> cookies acct = cookiesV (snd (auth_loop E tr a s')))"
        by simp
      with Continue True at auth_loop_Continue [of s E tr a s'] show ?thesis by simp
    qed
  qed
qed

text \<open>Running the definitions on the concrete collaborators.\<close>

lemmas auth_eval = authenticate_def auth_loop.simps attempt_def handle_response_def
  handle_redirect_def handle_plist_def build_request_def merge_cookies_def
  read_storeFront_def read_pod_def failureMessage_def start_state_def alloc_def
  ex_env_def ex_args_def ex_response_def ex_URL_def ex_parsePlist_def
  trim_empty_def is_space_def ascii_def Let_def

lemma ex_bag:
  "new_URL ex_env (defaultAuthURL ex_env)
     = Some \<lparr>hostname = ''buy.example'', pathname = ''/auth'', search = []\<rparr>"
  "fetchBag ex_env (deviceId ex_args) = Inr ''https://auth.example/fast''"
  "new_URL ex_env ''https://auth.example/fast''
     = Some \<lparr>hostname = ''auth.example'', pathname = ''/fast'', search = []\<rparr>"
  by (simp_all add: ex_env_def ex_URL_def)

section \<open>Facts about the base64 helpers\<close>

lemma b64_value_char: "n < 64 \<Longrightarrow> b64_value (b64_char n) = Some n"
  by (auto simp: b64_value_def b64_char_def Let_def)

lemma char_of_neq:
  assumes "m < 256" and "(of_char c :: nat) \<noteq> m"
  shows "char_of m \<noteq> c"
proof
  assume "char_of m = c"
  then have "(of_char (char_of m) :: nat) = of_char c" by simp
  with assms show False by simp
qed

lemma b64_char_not_pad: "n < 64 \<Longrightarrow> b64_char n \<noteq> CHR ''=''"
  unfolding b64_char_def by (rule char_of_neq) auto

lemma b64_char_not_space: "n < 64 \<Longrightarrow> \<not> ascii_whitespace (b64_char n)"
  by (auto simp: ascii_whitespace_def b64_char_def)

lemma pad_not_space: "\<not> ascii_whitespace CHR ''=''"
  by (simp add: ascii_whitespace_def)

lemma sextet_bounds:
  "a < 256 \<Longrightarrow> a div 4 < (64::nat)"
  "b < 256 \<Longrightarrow> (a mod 4) * 16 + b div 16 < (64::nat)"
  "c < 256 \<Longrightarrow> (b mod 16) * 4 + c div 64 < (64::nat)"
  "c mod 64 < (64::nat)"
  "(b mod 16) * 4 < (64::nat)"
  "(a mod 4) * 16 < (64::nat)"
  by linarith+

lemma btoa_codes_no_space:
  "\<forall>x\<in>set xs. x < 256 \<Longrightarrow> filter (\<lambda>c. \<not> ascii_whitespace c) (btoa_codes xs) = btoa_codes xs"
  by (induction xs rule: btoa_codes.induct)
    (simp_all add: b64_char_not_space sextet_bounds pad_not_space)

lemma length_btoa_codes: "length (btoa_codes xs) mod 4 = 0"
  by (induction xs rule: btoa_codes.induct) simp_all

lemma btoa_codes_empty: "(btoa_codes xs = []) = (xs = [])"
  by (cases xs rule: btoa_codes.cases) simp_all

lemma strip_padding_append:
  assumes "2 \<le> length y"
  shows "strip_padding (x @ y) = x @ strip_padding y"
proof -
  from assms have "y \<noteq> []" and "butlast y \<noteq> []"
    by (auto simp: length_butlast dest: arg_cong [where f = length])
  then show ?thesis
    by (simp add: strip_padding_def butlast_append)
qed

lemma strip_padding_btoa_codes:
  "\<forall>x\<in>set xs. x < 256 \<Longrightarrow> strip_padding (btoa_codes xs) = unpadded xs"
proof (induction xs rule: btoa_codes.induct)
  case (1 a b c rest)
  show ?case
  proof (cases "rest = []")
    case True
    with 1 show ?thesis
      by (simp add: strip_padding_def b64_char_not_pad sextet_bounds)
  next
    case False
    then have "btoa_codes rest \<noteq> []" by (simp add: btoa_codes_empty)
    then have "length (btoa_codes rest) \<noteq> 0" by simp
    with length_btoa_codes [of rest] have "2 \<le> length (btoa_codes rest)"
      by presburger
    then have "strip_padding ([c1, c2, c3, c4] @ btoa_codes rest)
                 = [c1, c2, c3, c4] @ strip_padding (btoa_codes rest)" for c1 c2 c3 c4
      by (rule strip_padding_append)
    with 1 show ?thesis by simp
  qed
next
  case (2 a b)
  then show ?case by (simp add: strip_padding_def b64_char_not_pad sextet_bounds)
next
  case (3 a)
  then show ?case by (simp add: strip_padding_def)
next
  case 4
  then show ?case by (simp add: strip_padding_def)
qed

lemma decode_group_1:
  assumes "a < 256" "b < 256" "c < 256"
  shows "(a div 4) * 4 + ((a mod 4) * 16 + b div 16) div 16 = (a::nat)"
proof -
  from assms have "b div 16 < 16" by linarith
  then have "((a mod 4) * 16 + b div 16) div 16 = a mod 4" by simp
  then show ?thesis by simp
qed

lemma decode_group_2:
  assumes "a < 256" "b < 256" "c < 256"
  shows "(((a mod 4) * 16 + b div 16) mod 16) * 16 + ((b mod 16) * 4 + c div 64) div 4 = (b::nat)"
proof -
  from assms have 1: "b div 16 < 16" and 2: "c div 64 < 4" by linarith+
  from 1 have "((a mod 4) * 16 + b div 16) mod 16 = b div 16" by simp
  moreover from 2 have "((b mod 16) * 4 + c div 64) div 4 = b mod 16" by simp
  ultimately show ?thesis by simp
qed

lemma decode_group_3:
  assumes "a < 256" "b < 256" "c < 256"
  shows "(((b mod 16) * 4 + c div 64) mod 4) * 64 + c mod 64 = (c::nat)"
proof -
  from assms have 2: "c div 64 < 4" by linarith
  then have "((b mod 16) * 4 + c div 64) mod 4 = c div 64" by simp
  then show ?thesis by simp
qed

lemma decode_group_4:
  assumes "b < 256"
  shows "(((a mod 4) * 16 + b div 16) mod 16) * 16 + ((b mod 16) * 4) div 4 = (b::nat)"
proof -
  from assms have 1: "b div 16 < 16" by linarith
  from 1 have "((a mod 4) * 16 + b div 16) mod 16 = b div 16" by simp
  then show ?thesis by simp
qed

lemma decode_group_5: "(a div 4) * 4 + ((a mod 4) * 16) div 16 = (a::nat)"
  by simp

lemmas decode_group = decode_group_1 decode_group_2 decode_group_3 decode_group_4 decode_group_5

lemma decode_sextets_group:
  assumes "a < 256" "b < 256" "c < 256"
  shows "decode_sextets (a div 4 # ((a mod 4) * 16 + b div 16)
            # ((b mod 16) * 4 + c div 64) # c mod 64 # rest)
           = a # b # c # decode_sextets rest"
    and "decode_sextets [a div 4, (a mod 4) * 16 + b div 16, (b mod 16) * 4] = [a, b]"
    and "decode_sextets [a div 4, (a mod 4) * 16] = [a]"
  using decode_group_1 [OF assms] decode_group_2 [OF assms] decode_group_3 [OF assms]
    decode_group_4 [OF assms(2), of a] decode_group_5 [of a]
  by (simp_all only: decode_sextets.simps append_Cons append_Nil)

lemma unpadded_valid:
  assumes "\<forall>x\<in>set xs. x < 256"
  shows "length (unpadded xs) mod 4 \<noteq> 1"
    and "\<not> list_ex (\<lambda>c. b64_value c = None) (unpadded xs)"
  using assms
  by (induction xs rule: unpadded.induct) (simp_all add: b64_value_char sextet_bounds)

lemma unpadded_decodes:
  assumes "\<forall>x\<in>set xs. x < 256"
  shows "decode_sextets (map (\<lambda>c. the (b64_value c)) (unpadded xs)) = xs"
  using assms
proof (induction xs rule: unpadded.induct)
  case (1 a b c rest)
  then show ?case
    by (simp add: b64_value_char sextet_bounds decode_sextets_group(1) del: decode_sextets.simps)
next
  case (2 a b)
  then show ?case
    using decode_sextets_group(2) [of a b 0]
    by (simp add: b64_value_char sextet_bounds del: decode_sextets.simps)
next
  case (3 a)
  then show ?case
    using decode_sextets_group(3) [of a 0 0]
    by (simp add: b64_value_char sextet_bounds del: decode_sextets.simps)
next
  case 4
  then show ?case by simp
qed

lemma atob_btoa_codes:
  assumes "\<forall>x\<in>set xs. x < 256"
  shows "atob (btoa_codes xs) = Inr (map char_of xs)"
  using assms unpadded_valid [OF assms] unpadded_decodes [OF assms]
  by (simp add: atob_def btoa_codes_no_space length_btoa_codes strip_padding_btoa_codes)

section \<open>Facts about the sign-in and the examples\<close>

lemma ex_b64Decode:
  "b64Decode ''AAECAwQFBgcICQoLDA0ODw=='' = Inr [0, 1, 2, 3, 4, 5, 6, 7, 8, 9, 10, 11, 12, 13, 14, 15]"
  "b64Decode ''AQID'' = Inr [1, 2, 3]"
  by (simp_all add: b64Decode_def atob_def and_then_def ascii_whitespace_def strip_padding_def
      b64_value_def Let_def)

lemma ex_signin_proofs:
  "signin_proofs ex_srp ex_platform ''pw'' ([], [])
     \<lparr>init_iteration = 20000, init_salt = ''AAECAwQFBgcICQoLDA0ODw=='',
                init_protocol = ''s2k'', init_b = ''AQID'', init_c = JString ''abc''\<rparr>
   = Inr ([80, 81], [81, 80])"
  by (simp add: signin_proofs_def ex_b64Decode and_then_def derivePassword_def deriveBits_def
      ex_srp_def ex_platform_def upt_rec [of _ "numeral n" for n])

lemma toHex_example: "toHex [0, 171, 255] = ''00abff''"
  by (simp add: toHex_def hex_digit_def)

text \<open>A failure of \<^verbatim>\<open>client.generate\<close> leaves \<^verbatim>\<open>idmsaSignin\<close> before the complete request.\<close>

lemma generate_failure_propagates:
  assumes "newClient L (TextEncoder_encode P email') [] = Inr client"
    and "appleRequest (init_request P email' (bytesFromBigint L (client_A L client))) = Inr initResp"
    and "status initResp = 200" and "parse_init (body initResp) = Inr d"
    and "b64Decode (init_salt d) = Inr saltB" and "b64Decode (init_b d) = Inr serverB"
    and "derivePassword P (init_protocol d) password' saltB (init_iteration d) = Inr key"
    and "generate L (set_p L client key) saltB serverB = Inl e"
  shows "idmsaSignin L P parse_init appleRequest email' password' = Inl e"
  using assms by (simp add: idmsaSignin_def signin_proofs_def and_then_def)

section \<open>Properties of the account-service sign-in\<close>

text \<open>
  Claim C1. The comment at line 137 says that a locked account (\<^verbatim>\<open>failureType\<close>
  \<^verbatim>\<open>"5020"\<close>) must not be retried, and line 141 throws. The throw is a plain
  \<^verbatim>\<open>Error\<close> inside the \<^verbatim>\<open>try\<close>: the \<^verbatim>\<open>catch\<close> at line 197 keeps it in
  \<^verbatim>\<open>lastError\<close> and the loop runs again while \<^verbatim>\<open>currentAttempt < 2\<close>. With a
  transport that answers every request with the locked-account document, the transport is
  called twice; the message that finally surfaces is the document's customer message.
\<close>

theorem locked_account_is_retried:
  "fst (authenticate ex_env tr_locked ex_args []) = Inl (Error ''This Apple ID has been locked.'')
   \<and> length (snd (snd (authenticate ex_env tr_locked ex_args []))) = 2"
  by (simp add: auth_eval tr_locked_def)

text \<open>
  Claim C2, as amended. Take the loop in any state on its first credential attempt (the
  counter is at 0 before the attempt and at 1 when line 145 reads it; redirects may have
  come before). When the request of that state is answered with a document whose
  \<^verbatim>\<open>failureType\<close> is \<^verbatim>\<open>"-5000"\<close>, the loop body ends with \<^verbatim>\<open>continue\<close>, host and
  path are unchanged, and the next request is sent and is the same request (host, path,
  headers and form body), whatever happens afterwards. Unless the answer to that retry is
  a redirect, nothing is sent after it; when \<^verbatim>\<open>authenticate\<close> gets the \<^verbatim>\<open>"-5000"\<close>
  document on its very first request, the transport has then been called exactly twice.
  When the retry is again answered with a \<^verbatim>\<open>"-5000"\<close> document, it is not retried: the
  call fails with \<^verbatim>\<open>dialog.explanation\<close> if the document has one, else with
  \<^verbatim>\<open>customerMessage\<close> if it has one, else with the generic text, when the document has
  no \<^verbatim>\<open>accountInfo\<close> or no \<^verbatim>\<open>address\<close>; and it returns an account otherwise.
\<close>

theorem transient_failure_retried_once:
  assumes c: "currentAttempt s = 0" "redirectAttempt s \<le> 3"
    and a1: "tr (length (sent s)) (build_request a s) (arrays s ! cookiesV s) = (Inr r1, cs1)"
    and p1: "status r1 \<noteq> 302" "\<not> (status r1 = 404 \<and> \<not> truthy_str (code a))"
      "\<not> trim_empty (body r1)" "parsePlist E (body r1) = Inr d1"
      "get_prop d1 ''failureType'' = Some (PString ''-5000'')"
    and s1: "s1 = received E a r1 cs1 s"
    and a2: "fst (tr (length (sent s1)) (build_request a s1) (arrays s1 ! cookiesV s1)) = x2"
  shows "attempt E tr a s = (Continue, s1)
       \<and> currentAttempt s1 = 1 \<and> redirectAttempt s1 = redirectAttempt s
       \<and> requestHost s1 = requestHost s \<and> requestPath s1 = requestPath s
       \<and> build_request a s1 = build_request a s
       \<and> sent s1 = sent s @ [build_request a s]
       \<and> (\<exists>rest. sent (snd (auth_loop E tr a s))
                    = sent s @ [build_request a s, build_request a s] @ rest)
       \<and> ((\<forall>r. x2 = Inr r \<longrightarrow> status r \<noteq> 302)
            \<longrightarrow> sent (snd (auth_loop E tr a s))
                  = sent s @ [build_request a s, build_request a s])
       \<and> (\<forall>r2 d2. x2 = Inr r2 \<and> status r2 \<noteq> 302
             \<and> \<not> (status r2 = 404 \<and> \<not> truthy_str (code a))
             \<and> \<not> trim_empty (body r2) \<and> parsePlist E (body r2) = Inr d2
             \<and> get_prop d2 ''failureType'' = Some (PString ''-5000'')
           \<longrightarrow> sent (snd (auth_loop E tr a s))
                  = sent s @ [build_request a s, build_request a s]
               \<and> (\<not> truthy (get_prop d2 ''accountInfo'') \<longrightarrow>
                  fst (auth_loop E tr a s)
                    = Inl (Error (case opt_prop (get_prop d2 ''dialog'') ''explanation'' of
                                    Some m \<Rightarrow> String_js m
                                  | None \<Rightarrow>
                                      (case get_prop d2 ''customerMessage'' of
                                         Some m \<Rightarrow> String_js m
                                       | None \<Rightarrow> i18n_t E ''errors.auth.missingAccountInfo''))))
               \<and> (truthy (get_prop d2 ''accountInfo'')
                  \<and> \<not> truthy (opt_prop (get_prop d2 ''accountInfo'') ''address'') \<longrightarrow>
                  fst (auth_loop E tr a s)
                    = Inl (Error (case opt_prop (get_prop d2 ''dialog'') ''explanation'' of
                                    Some m \<Rightarrow> String_js m
                                  | None \<Rightarrow>
                                      (case get_prop d2 ''customerMessage'' of
                                         Some m \<Rightarrow> String_js m
                                       | None \<Rightarrow> i18n_t E ''errors.auth.missingAddress''))))
               \<and> (truthy (get_prop d2 ''accountInfo'')
                  \<and> truthy (opt_prop (get_prop d2 ''accountInfo'') ''address'') \<longrightarrow>
                  (\<exists>acct. fst (auth_loop E tr a s) = Inr acct)))
       \<and> (\<forall>h d0 authURL u.
             new_URL E (defaultAuthURL E) = Some d0 \<and> fetchBag E (deviceId a) = Inr authURL
             \<and> new_URL E authURL = Some u \<and> s = entry_state E a h u
           \<longrightarrow> fst (authenticate E tr a h) = fst (auth_loop E tr a s)
               \<and> (\<exists>rest. snd (snd (authenticate E tr a h))
                            = [build_request a s, build_request a s] @ rest)
               \<and> ((\<forall>r. x2 = Inr r \<longrightarrow> status r \<noteq> 302)
                    \<longrightarrow> snd (snd (authenticate E tr a h))
                          = [build_request a s, build_request a s]))"
proof -
  let ?req = "build_request a s"
  from attempt_Inr [where tr = tr and s = s and a = a and E = E, OF a1] s1
  have at1: "attempt E tr a s = handle_response E a r1 s1" by simp
  have c1: "currentAttempt s1 = 1" "redirectAttempt s1 = redirectAttempt s"
    "requestHost s1 = requestHost s" "requestPath s1 = requestPath s"
    "sent s1 = sent s @ [?req]"
    using c s1 by simp_all
  from at1 p1 c1(1) have step: "attempt E tr a s = (Continue, s1)"
    by (simp add: handle_response_plist handle_plist_retry)
  from c step have loop1: "auth_loop E tr a s = auth_loop E tr a s1"
    by (intro auth_loop_Continue) simp_all
  have req1: "build_request a s1 = ?req"
    using c1(3,4) by (rule build_request_cong)
  have g1: "currentAttempt s1 < 2" "redirectAttempt s1 \<le> 3"
    using c c1 by simp_all
  from auth_loop_sends [OF g1, of E tr a] obtain rest where
    "sent (snd (auth_loop E tr a s1)) = sent s1 @ [build_request a s1] @ rest"
    by auto
  with loop1 req1 c1(5)
  have second: "\<exists>rest. sent (snd (auth_loop E tr a s)) = sent s @ [?req, ?req] @ rest"
    by simp
  have last: "sent (snd (auth_loop E tr a s)) = sent s @ [?req, ?req]"
    if nr: "\<forall>r. x2 = Inr r \<longrightarrow> status r \<noteq> 302"
  proof -
    from nr a2 c1(1) g1(2)
    have "sent (snd (auth_loop E tr a s1)) = sent s1 @ [build_request a s1]"
      by (intro auth_loop_last_attempt) simp_all
    with loop1 req1 c1(5) show ?thesis by simp
  qed
  have res: "sent (snd (auth_loop E tr a s)) = sent s @ [?req, ?req]
               \<and> (\<not> truthy (get_prop d2 ''accountInfo'') \<longrightarrow>
                  fst (auth_loop E tr a s)
                    = Inl (Error (case opt_prop (get_prop d2 ''dialog'') ''explanation'' of
                                    Some m \<Rightarrow> String_js m
                                  | None \<Rightarrow>
                                      (case get_prop d2 ''customerMessage'' of
                                         Some m \<Rightarrow> String_js m
                                       | None \<Rightarrow> i18n_t E ''errors.auth.missingAccountInfo''))))
               \<and> (truthy (get_prop d2 ''accountInfo'')
                  \<and> \<not> truthy (opt_prop (get_prop d2 ''accountInfo'') ''address'') \<longrightarrow>
                  fst (auth_loop E tr a s)
                    = Inl (Error (case opt_prop (get_prop d2 ''dialog'') ''explanation'' of
                                    Some m \<Rightarrow> String_js m
                                  | None \<Rightarrow>
                                      (case get_prop d2 ''customerMessage'' of
                                         Some m \<Rightarrow> String_js m
                                       | None \<Rightarrow> i18n_t E ''errors.auth.missingAddress''))))
               \<and> (truthy (get_prop d2 ''accountInfo'')
                  \<and> truthy (opt_prop (get_prop d2 ''accountInfo'') ''address'') \<longrightarrow>
                  (\<exists>acct. fst (auth_loop E tr a s) = Inr acct))"
    if x2: "x2 = Inr r2" and st2: "status r2 \<noteq> 302"
      and p2: "\<not> (status r2 = 404 \<and> \<not> truthy_str (code a))"
      "\<not> trim_empty (body r2)" "parsePlist E (body r2) = Inr d2"
      "get_prop d2 ''failureType'' = Some (PString ''-5000'')"
    for r2 d2
  proof -
    from x2 st2 have "\<forall>r. x2 = Inr r \<longrightarrow> status r \<noteq> 302" by simp
    then have log: "sent (snd (auth_loop E tr a s)) = sent s @ [?req, ?req]" by (rule last)
    from a2 x2
    have "fst (tr (length (sent s1)) (build_request a s1) (arrays s1 ! cookiesV s1)) = Inr r2"
      by simp
    then obtain cs2 where
      at2: "attempt E tr a s1 = handle_response E a r2 (received E a r2 cs2 s1)"
      by (rule attempt_answered)
    let ?s2 = "received E a r2 cs2 s1"
    have c2: "currentAttempt ?s2 = 2" "currentAttempt ?s2 \<noteq> 1" using c1(1) by simp_all
    from at2 st2 p2 have at2': "attempt E tr a s1 = handle_plist E a (read_pod r2) d2 ?s2"
      by (simp add: handle_response_plist)
    note fl = handle_plist_flake_final [OF p2(4) c2(2), of E a "read_pod r2"]
    have m: "String_js (nullish (failureMessage d2) (PString t))
               = (case opt_prop (get_prop d2 ''dialog'') ''explanation'' of
                    Some m \<Rightarrow> String_js m
                  | None \<Rightarrow> (case get_prop d2 ''customerMessage'' of
                               Some m \<Rightarrow> String_js m | None \<Rightarrow> t))" for t
      by (simp add: failureMessage_def split: option.splits)
    have "fst (auth_loop E tr a s1)
            = Inl (Error (String_js (nullish (failureMessage d2)
                        (PString (i18n_t E ''errors.auth.missingAccountInfo'')))))"
      if "\<not> truthy (get_prop d2 ''accountInfo'')"
      using auth_loop_final_Throw(1) [OF g1 _ c2(1)] at2' fl(1) [OF that] by simp
    moreover have "fst (auth_loop E tr a s1)
            = Inl (Error (String_js (nullish (failureMessage d2)
                        (PString (i18n_t E ''errors.auth.missingAddress'')))))"
      if "truthy (get_prop d2 ''accountInfo'')"
        "\<not> truthy (opt_prop (get_prop d2 ''accountInfo'') ''address'')"
      using auth_loop_final_Throw(1) [OF g1 _ c2(1)] at2' fl(2) [OF that] by simp
    moreover have "\<exists>acct. fst (auth_loop E tr a s1) = Inr acct"
      if "truthy (get_prop d2 ''accountInfo'')"
        "truthy (opt_prop (get_prop d2 ''accountInfo'') ''address'')"
    proof -
      from fl(3) [OF that] at2' obtain acct where "attempt E tr a s1 = (Return acct, ?s2)"
        by auto
      from auth_loop_Return [OF g1 this] show ?thesis by simp
    qed
    ultimately show ?thesis
      using loop1 log by (simp add: m)
  qed
  have top: "fst (authenticate E tr a h) = fst (auth_loop E tr a s)
               \<and> (\<exists>rest. snd (snd (authenticate E tr a h)) = [?req, ?req] @ rest)
               \<and> ((\<forall>r. x2 = Inr r \<longrightarrow> status r \<noteq> 302)
                    \<longrightarrow> snd (snd (authenticate E tr a h)) = [?req, ?req])"
    if bag: "new_URL E (defaultAuthURL E) = Some d0" "fetchBag E (deviceId a) = Inr authURL"
      "new_URL E authURL = Some u" and s: "s = entry_state E a h u"
    for h d0 authURL u
  proof -
    from s have e: "sent s = []" by simp
    from authenticate_loop [OF bag, of tr h] s
    have "fst (authenticate E tr a h) = fst (auth_loop E tr a s)"
      and "snd (snd (authenticate E tr a h)) = sent (snd (auth_loop E tr a s))"
      by simp_all
    with second last e show ?thesis by simp
  qed
  from step c1 req1 second last res top show ?thesis by blast
qed

text \<open>
  The theorem at a transport that answers the first request with a \<^verbatim>\<open>"-5000"\<close>
  document and the retry with a \<^verbatim>\<open>"-5000"\<close> document that has both a customer message
  and a dialog explanation: two identical requests, and the explanation is the message.
\<close>

theorem transient_failure_retried_once_witness:
  "length (snd (snd (authenticate ex_env tr_flake_dialog ex_args []))) = 2
   \<and> snd (snd (authenticate ex_env tr_flake_dialog ex_args [])) ! 0
       = snd (snd (authenticate ex_env tr_flake_dialog ex_args [])) ! 1
   \<and> fst (authenticate ex_env tr_flake_dialog ex_args []) = Inl (Error ''Try again later.'')"
proof -
  let ?u = "\<lparr>hostname = ''auth.example'', pathname = ''/fast'', search = []\<rparr>"
  let ?s = "entry_state ex_env ex_args [] ?u"
  let ?r1 = "ex_response 200 Map.empty ''flake''"
  let ?r2 = "ex_response 200 Map.empty ''flake+dialog''"
  let ?d1 = "PDict [(''failureType'', PString ''-5000''),
                    (''customerMessage'', PString ''Your Apple ID or password is incorrect.'')]"
  let ?d2 = "PDict [(''failureType'', PString ''-5000''),
                    (''customerMessage'', PString ''Your Apple ID or password is incorrect.''),
                    (''dialog'', PDict [(''explanation'', PString ''Try again later.'')])]"
  let ?s1 = "received ex_env ex_args ?r1 [] ?s"
  have c: "currentAttempt ?s = 0" "redirectAttempt ?s \<le> 3" by simp_all
  have a1: "tr_flake_dialog (length (sent ?s)) (build_request ex_args ?s) (arrays ?s ! cookiesV ?s)
              = (Inr ?r1, [])"
    by (simp add: tr_flake_dialog_def ex_args_def)
  have p1: "status ?r1 \<noteq> 302" "\<not> (status ?r1 = 404 \<and> \<not> truthy_str (code ex_args))"
    "\<not> trim_empty (body ?r1)" "parsePlist ex_env (body ?r1) = Inr ?d1"
    "get_prop ?d1 ''failureType'' = Some (PString ''-5000'')"
    by (simp_all add: ex_response_def ex_env_def ex_parsePlist_def trim_empty_def is_space_def
        ascii_def)
  have a2: "fst (tr_flake_dialog (length (sent ?s1)) (build_request ex_args ?s1)
                   (arrays ?s1 ! cookiesV ?s1)) = Inr ?r2"
    by (simp add: tr_flake_dialog_def)
  have p2: "(Inr ?r2 :: error + response) = Inr ?r2 \<and> status ?r2 \<noteq> 302
             \<and> \<not> (status ?r2 = 404 \<and> \<not> truthy_str (code ex_args))
             \<and> \<not> trim_empty (body ?r2) \<and> parsePlist ex_env (body ?r2) = Inr ?d2
             \<and> get_prop ?d2 ''failureType'' = Some (PString ''-5000'')"
    by (simp add: ex_response_def ex_env_def ex_parsePlist_def trim_empty_def is_space_def
        ascii_def)
  have nr: "\<forall>r. (Inr ?r2 :: error + response) = Inr r \<longrightarrow> status r \<noteq> 302"
    by (simp add: ex_response_def)
  note t = transient_failure_retried_once [OF c a1 p1 refl a2]
  note loop = t [THEN conjunct2, THEN conjunct2, THEN conjunct2, THEN conjunct2,
      THEN conjunct2, THEN conjunct2, THEN conjunct2, THEN conjunct2]
  from loop [THEN conjunct2, THEN conjunct1, rule_format, OF p2]
  have msg: "fst (auth_loop ex_env tr_flake_dialog ex_args ?s) = Inl (Error ''Try again later.'')"
    by simp
  have bag: "new_URL ex_env (defaultAuthURL ex_env)
               = Some \<lparr>hostname = ''buy.example'', pathname = ''/auth'', search = []\<rparr>
             \<and> fetchBag ex_env (deviceId ex_args) = Inr ''https://auth.example/fast''
             \<and> new_URL ex_env ''https://auth.example/fast'' = Some ?u \<and> ?s = ?s"
    using ex_bag by simp
  note top = loop [THEN conjunct2, THEN conjunct2, rule_format, OF bag]
  from top [THEN conjunct2, THEN conjunct2] nr
  have "snd (snd (authenticate ex_env tr_flake_dialog ex_args []))
          = [build_request ex_args ?s, build_request ex_args ?s]"
    by blast
  then have log: "length (snd (snd (authenticate ex_env tr_flake_dialog ex_args []))) = 2"
    "snd (snd (authenticate ex_env tr_flake_dialog ex_args [])) ! 0
       = snd (snd (authenticate ex_env tr_flake_dialog ex_args [])) ! 1"
    by simp_all
  from top [THEN conjunct1] msg log show ?thesis by simp
qed

text \<open>
  The first credential attempt need not be the first request. Here the first request is
  redirected, the request to the new host is answered with a \<^verbatim>\<open>"-5000"\<close> document, and
  the retry goes to the new host again: three requests, the last two identical.
\<close>

lemma retry_after_redirect:
  "length (snd (snd (authenticate ex_env tr_redirect_flake ex_args []))) = 3
   \<and> snd (snd (authenticate ex_env tr_redirect_flake ex_args [])) ! 1
       = snd (snd (authenticate ex_env tr_redirect_flake ex_args [])) ! 2
   \<and> req_host (snd (snd (authenticate ex_env tr_redirect_flake ex_args [])) ! 0) = ''auth.example''
   \<and> req_host (snd (snd (authenticate ex_env tr_redirect_flake ex_args [])) ! 1) = ''next.example''
   \<and> fst (authenticate ex_env tr_redirect_flake ex_args []) = Inl (Error ''Try again later.'')"
  by (simp add: auth_eval tr_redirect_flake_def)

text \<open>
  The claim as it was stated fails when the second \<^verbatim>\<open>"-5000"\<close> document carries
  \<^verbatim>\<open>accountInfo\<close> with an \<^verbatim>\<open>address\<close>: nothing at lines 150 to 196 looks at
  \<^verbatim>\<open>failureType\<close> again, and the call returns the account.
\<close>

theorem repeated_flake_with_account_is_success:
  "get_prop (projr (parsePlist ex_env (ascii ''flake+account''))) ''failureType''
     = Some (PString ''-5000'')
   \<and> fst (authenticate ex_env tr_flake_account ex_args [])
     = Inr \<lparr>email = ''a@b.c'', password = ''pw'', appleId = PString ''a@b.c'', store = [],
            firstName = PString ''A'', lastName = PString ''B'', passwordToken = PString ''tok'',
            directoryServicesIdentifier = ''123456789'', cookies = 2,
            deviceIdentifier = ''0123456789AB'', pod = None\<rparr>
   \<and> length (snd (snd (authenticate ex_env tr_flake_account ex_args []))) = 2"
  by (simp add: auth_eval tr_flake_account_def)

text \<open>
  Claim C3, as amended. A 302 whose \<^verbatim>\<open>Location\<close> is present and parses leaves the
  credential-attempt counter where it was before the attempt and adds one redirect hop;
  the next request goes to the new host and path. Four such redirects in a row end the call
  with the unknown-reason failure after exactly four requests, and no run of
  \<^verbatim>\<open>authenticate\<close> sends more than five requests. A 302 without \<^verbatim>\<open>Location\<close> throws
  the redirect-location error, which uses up that credential attempt without adding a hop;
  on the second credential attempt this error ends the call.
\<close>

theorem redirects_bounded:
  "(\<forall>s r u'. fst (tr (length (sent s)) (build_request a s) (arrays s ! cookiesV s)) = Inr r
        \<and> status r = 302 \<and> truthy_str (headers r ''location'')
        \<and> new_URL E (nullish (headers r ''location'') []) = Some u'
      \<longrightarrow> (\<exists>s'. attempt E tr a s = (Continue, s')
             \<and> currentAttempt s' = currentAttempt s
             \<and> redirectAttempt s' = redirectAttempt s + 1
             \<and> requestHost s' = hostname u' \<and> requestPath s' = pathname u' @ search u'))
   \<and> (\<forall>h d0 authURL u rs.
          new_URL E (defaultAuthURL E) = Some d0 \<and> fetchBag E (deviceId a) = Inr authURL
          \<and> new_URL E authURL = Some u
          \<and> (\<forall>n<4. (\<forall>req cs. fst (tr n req cs) = Inr (rs n)) \<and> status (rs n) = 302
                  \<and> truthy_str (headers (rs n) ''location'')
                  \<and> new_URL E (nullish (headers (rs n) ''location'') []) \<noteq> None)
      \<longrightarrow> fst (authenticate E tr a h) = Inl (Error (i18n_t E ''errors.auth.unknownReason''))
          \<and> length (snd (snd (authenticate E tr a h))) = 4)
   \<and> (\<forall>h. length (snd (snd (authenticate E tr a h))) \<le> 5)
   \<and> (\<forall>s r. fst (tr (length (sent s)) (build_request a s) (arrays s ! cookiesV s)) = Inr r
        \<and> status r = 302 \<and> \<not> truthy_str (headers r ''location'')
      \<longrightarrow> (\<exists>s'. attempt E tr a s = (Throw (Error (i18n_t E ''errors.auth.redirectLocation'')), s')
             \<and> currentAttempt s' = currentAttempt s + 1
             \<and> redirectAttempt s' = redirectAttempt s)
          \<and> (currentAttempt s = 1 \<and> redirectAttempt s \<le> 3
              \<longrightarrow> fst (auth_loop E tr a s) = Inl (Error (i18n_t E ''errors.auth.redirectLocation''))
                \<and> sent (snd (auth_loop E tr a s)) = sent s @ [build_request a s]))"
proof (intro conjI allI impI)
  fix s r u'
  assume "fst (tr (length (sent s)) (build_request a s) (arrays s ! cookiesV s)) = Inr r
        \<and> status r = 302 \<and> truthy_str (headers r ''location'')
        \<and> new_URL E (nullish (headers r ''location'') []) = Some u'"
  then obtain s' where "attempt E tr a s = (Continue, s')"
    "currentAttempt s' = currentAttempt s" "redirectAttempt s' = redirectAttempt s + 1"
    "requestHost s' = hostname u'" "requestPath s' = pathname u' @ search u'"
    by (auto elim: attempt_redirect [where E = E])
  then show "\<exists>s'. attempt E tr a s = (Continue, s')
             \<and> currentAttempt s' = currentAttempt s
             \<and> redirectAttempt s' = redirectAttempt s + 1
             \<and> requestHost s' = hostname u' \<and> requestPath s' = pathname u' @ search u'"
    by blast
next
  fix h d0 authURL u rs
  assume h: "new_URL E (defaultAuthURL E) = Some d0 \<and> fetchBag E (deviceId a) = Inr authURL
          \<and> new_URL E authURL = Some u
          \<and> (\<forall>n<4. (\<forall>req cs. fst (tr n req cs) = Inr (rs n)) \<and> status (rs n) = 302
                  \<and> truthy_str (headers (rs n) ''location'')
                  \<and> new_URL E (nullish (headers (rs n) ''location'') []) \<noteq> None)"
  then have bag: "new_URL E (defaultAuthURL E) = Some d0" "fetchBag E (deviceId a) = Inr authURL"
    "new_URL E authURL = Some u"
    by simp_all
  from h have red: "\<forall>n<4. (\<forall>req cs. fst (tr n req cs) = Inr (rs n)) \<and> status (rs n) = 302
                  \<and> truthy_str (headers (rs n) ''location'')
                  \<and> new_URL E (nullish (headers (rs n) ''location'') []) \<noteq> None"
    by simp
  from redirect_chain [OF red, of "entry_state E a h u" a]
  show "fst (authenticate E tr a h) = Inl (Error (i18n_t E ''errors.auth.unknownReason''))"
    and "length (snd (snd (authenticate E tr a h))) = 4"
    by (simp_all add: authenticate_loop [OF bag])
next
  fix h show "length (snd (snd (authenticate E tr a h))) \<le> 5"
    by (rule authenticate_requests_bound)
next
  fix s r
  assume "fst (tr (length (sent s)) (build_request a s) (arrays s ! cookiesV s)) = Inr r
        \<and> status r = 302 \<and> \<not> truthy_str (headers r ''location'')"
  then obtain s' where "attempt E tr a s = (Throw (Error (i18n_t E ''errors.auth.redirectLocation'')), s')"
    "currentAttempt s' = currentAttempt s + 1" "redirectAttempt s' = redirectAttempt s"
    by (auto elim: attempt_redirect_no_location [where E = E])
  then show "\<exists>s'. attempt E tr a s = (Throw (Error (i18n_t E ''errors.auth.redirectLocation'')), s')
             \<and> currentAttempt s' = currentAttempt s + 1
             \<and> redirectAttempt s' = redirectAttempt s"
    by blast
next
  fix s r
  assume h: "fst (tr (length (sent s)) (build_request a s) (arrays s ! cookiesV s)) = Inr r
        \<and> status r = 302 \<and> \<not> truthy_str (headers r ''location'')"
    and c: "currentAttempt s = 1 \<and> redirectAttempt s \<le> 3"
  from h obtain s' where s': "attempt E tr a s = (Throw (Error (i18n_t E ''errors.auth.redirectLocation'')), s')"
    "currentAttempt s' = currentAttempt s + 1" "sent s' = sent s @ [build_request a s]"
    by (auto elim: attempt_redirect_no_location [where E = E])
  from c s'(2) have c': "currentAttempt s < 2" "redirectAttempt s \<le> 3" "currentAttempt s' = 2"
    by simp_all
  from auth_loop_final_Throw [OF c'(1,2) s'(1) c'(3)] s'(3)
  show "fst (auth_loop E tr a s) = Inl (Error (i18n_t E ''errors.auth.redirectLocation''))"
    and "sent (snd (auth_loop E tr a s)) = sent s @ [build_request a s]"
    by simp_all
qed

text \<open>The theorem at a transport that answers every request with a redirect.\<close>

theorem redirects_bounded_witness:
  "fst (authenticate ex_env tr_redirects ex_args []) = Inl (Error ''errors.auth.unknownReason'')
   \<and> length (snd (snd (authenticate ex_env tr_redirects ex_args []))) = 4"
proof -
  note b = ex_bag
  let ?r = "ex_response 302 [''location'' \<mapsto> ''https://next.example/login''] []"
  have r: "\<forall>n<4. (\<forall>req cs. fst (tr_redirects n req cs) = Inr ((\<lambda>n. ?r) n)) \<and> status ((\<lambda>n. ?r) n) = 302
                  \<and> truthy_str (headers ((\<lambda>n. ?r) n) ''location'')
                  \<and> new_URL ex_env (nullish (headers ((\<lambda>n. ?r) n) ''location'') []) \<noteq> None"
    by (simp add: tr_redirects_def ex_response_def ex_env_def ex_URL_def)
  from redirects_bounded [of tr_redirects ex_args ex_env, THEN conjunct2, THEN conjunct1,
      rule_format, OF conjI [OF b(1) conjI [OF b(2) conjI [OF b(3) r]]], of "[]"]
  show ?thesis by (simp add: ex_env_def)
qed

text \<open>
  The claim as it was stated calls a 302 without \<^verbatim>\<open>Location\<close> fatal. On the first
  credential attempt it is not: the \<^verbatim>\<open>catch\<close> keeps the error and the loop sends the
  request again; if that one succeeds, so does the call.
\<close>

theorem missing_location_is_retried:
  "fst (authenticate ex_env tr_no_location ex_args [])
     = Inr \<lparr>email = ''a@b.c'', password = ''pw'', appleId = PString ''a@b.c'', store = [],
            firstName = PString ''A'', lastName = PString ''B'', passwordToken = PString ''tok'',
            directoryServicesIdentifier = ''123456789'', cookies = 2,
            deviceIdentifier = ''0123456789AB'', pod = None\<rparr>
   \<and> length (snd (snd (authenticate ex_env tr_no_location ex_args []))) = 2"
  by (simp add: auth_eval tr_no_location_def)

text \<open>
  Claim C4. With no code supplied (\<^verbatim>\<open>!code\<close>), a response with status 404 ends the
  sign-in at once with \<^verbatim>\<open>AuthenticationError(requiresVerification, codeRequired = true)\<close>:
  the \<^verbatim>\<open>catch\<close> rethrows it, so it is never retried and no request follows the one that
  was answered with 404. This holds at whatever point of the loop the 404 arrives; when it
  answers the first request, the transport has been called exactly once.
\<close>

theorem verification_required_on_404:
  assumes nocode: "\<not> truthy_str (code a)" and st: "status r = 404"
  shows "(\<forall>s. currentAttempt s < 2 \<and> redirectAttempt s \<le> 3
              \<and> fst (tr (length (sent s)) (build_request a s) (arrays s ! cookiesV s)) = Inr r
            \<longrightarrow> fst (auth_loop E tr a s)
                  = Inl (AuthenticationError (i18n_t E ''errors.auth.requiresVerification'') True)
                \<and> sent (snd (auth_loop E tr a s)) = sent s @ [build_request a s])
       \<and> (\<forall>h d authURL u.
              new_URL E (defaultAuthURL E) = Some d \<and> fetchBag E (deviceId a) = Inr authURL
              \<and> new_URL E authURL = Some u \<and> (\<forall>req cs. fst (tr 0 req cs) = Inr r)
            \<longrightarrow> fst (authenticate E tr a h)
                  = Inl (AuthenticationError (i18n_t E ''errors.auth.requiresVerification'') True)
                \<and> length (snd (snd (authenticate E tr a h))) = 1)"
proof -
  have step: "fst (auth_loop E tr a s)
                  = Inl (AuthenticationError (i18n_t E ''errors.auth.requiresVerification'') True)
                \<and> sent (snd (auth_loop E tr a s)) = sent s @ [build_request a s]"
    if c: "currentAttempt s < 2" "redirectAttempt s \<le> 3"
      and t: "fst (tr (length (sent s)) (build_request a s) (arrays s ! cookiesV s)) = Inr r"
    for s
  proof -
    from t obtain cs where "attempt E tr a s = handle_response E a r (received E a r cs s)"
      by (rule attempt_answered)
    with nocode st have "attempt E tr a s
            = (Throw (AuthenticationError (i18n_t E ''errors.auth.requiresVerification'') True),
               received E a r cs s)"
      by (simp add: handle_response_def)
    from auth_loop_Throw_signal [OF c this] show ?thesis by simp
  qed
  have top: "fst (authenticate E tr a h)
                  = Inl (AuthenticationError (i18n_t E ''errors.auth.requiresVerification'') True)
                \<and> length (snd (snd (authenticate E tr a h))) = 1"
    if b: "new_URL E (defaultAuthURL E) = Some d" "fetchBag E (deviceId a) = Inr authURL"
      "new_URL E authURL = Some u" and t: "\<forall>req cs. fst (tr 0 req cs) = Inr r"
    for h d authURL u
    using step [of "entry_state E a h u"] t by (simp add: authenticate_loop [OF b])
  from step top show ?thesis by blast
qed

text \<open>The theorem at a transport that answers 404 to a sign-in without code.\<close>

theorem verification_required_on_404_witness:
  "\<not> truthy_str (code ex_args) \<and> status (ex_response 404 Map.empty []) = 404
   \<and> fst (authenticate ex_env tr_404 ex_args [])
       = Inl (AuthenticationError ''errors.auth.requiresVerification'' True)
   \<and> length (snd (snd (authenticate ex_env tr_404 ex_args []))) = 1"
proof -
  have h: "\<not> truthy_str (code ex_args)" "status (ex_response 404 Map.empty []) = 404"
    by (simp_all add: ex_args_def ex_response_def)
  have b: "new_URL ex_env (defaultAuthURL ex_env) = Some \<lparr>hostname = ''buy.example'', pathname = ''/auth'', search = []\<rparr>"
    "fetchBag ex_env (deviceId ex_args) = Inr ''https://auth.example/fast''"
    "new_URL ex_env ''https://auth.example/fast'' = Some \<lparr>hostname = ''auth.example'', pathname = ''/fast'', search = []\<rparr>"
    "\<forall>req cs. fst (tr_404 0 req cs) = Inr (ex_response 404 Map.empty [])"
    by (simp_all add: ex_env_def ex_URL_def tr_404_def)
  from verification_required_on_404 [OF h, of tr_404 ex_env] b h show ?thesis
    by (auto simp: ex_env_def)
qed

text \<open>
  Claim C9. Line 26 copies the caller's array, and only the copy (or an array returned by
  \<^verbatim>\<open>extractAndMergeCookies\<close>) is ever handed to the transport and to the merge. So
  whatever the collaborators do to the arrays they are handed, and however the call ends,
  every array that existed before the call holds what it held, the caller's
  \<^verbatim>\<open>existingCookies\<close> among them. On success the account's \<^verbatim>\<open>cookies\<close> is an array
  allocated during the call, different from the caller's, and it holds the cookies
  accumulated over all the requests of the call.
\<close>

theorem caller_cookies_untouched:
  "take (length h) (fst (snd (authenticate E tr a h))) = h
   \<and> (\<forall>e. existingCookies a = Some e \<and> e < length h
          \<longrightarrow> fst (snd (authenticate E tr a h)) ! e = h ! e)
   \<and> (\<forall>acct. fst (authenticate E tr a h) = Inr acct
          \<longrightarrow> length h \<le> cookies acct
            \<and> cookies acct < length (fst (snd (authenticate E tr a h)))
            \<and> (\<forall>e. existingCookies a = Some e \<and> e < length h \<longrightarrow> cookies acct \<noteq> e)
            \<and> fst (snd (authenticate E tr a h)) ! cookies acct
                = accumulated E tr 0 (snd (snd (authenticate E tr a h)))
                    (case existingCookies a of Some e \<Rightarrow> h ! e | None \<Rightarrow> []))"
proof -
  let ?c0 = "case existingCookies a of Some e \<Rightarrow> h ! e | None \<Rightarrow> []"
  let ?R = "authenticate E tr a h"
  have main: "take (length h) (fst (snd ?R)) = h
      \<and> (\<forall>acct. fst ?R = Inr acct
          \<longrightarrow> length h \<le> cookies acct \<and> cookies acct < length (fst (snd ?R))
            \<and> fst (snd ?R) ! cookies acct = accumulated E tr 0 (snd (snd ?R)) ?c0)"
  proof (cases "\<exists>d0 authURL u. new_URL E (defaultAuthURL E) = Some d0
                  \<and> fetchBag E (deviceId a) = Inr authURL \<and> new_URL E authURL = Some u")
    case False
    then show ?thesis
      by (auto simp: authenticate_def alloc_def split: option.splits sum.splits)
  next
    case True
    then obtain d0 authURL u where bag: "new_URL E (defaultAuthURL E) = Some d0"
      "fetchBag E (deviceId a) = Inr authURL" "new_URL E authURL = Some u"
      by blast
    let ?s0 = "entry_state E a h u"
    have "owned h ?s0" and "arrays ?s0 ! cookiesV ?s0 = accumulated E tr 0 (sent ?s0) ?c0"
      by (simp_all add: owned_def)
    from owned_auth_loop [OF this, of a] show ?thesis
      by (simp add: authenticate_loop [OF bag] owned_def)
  qed
  have same: "fst (snd ?R) ! e = h ! e" if "e < length h" for e
  proof -
    from that have "take (length h) (fst (snd ?R)) ! e = fst (snd ?R) ! e" by simp
    with main show ?thesis by simp
  qed
  show ?thesis
  proof (intro conjI allI impI)
    show "take (length h) (fst (snd ?R)) = h" using main by simp
  next
    fix e assume "existingCookies a = Some e \<and> e < length h"
    then show "fst (snd ?R) ! e = h ! e" using same by simp
  next
    fix acct assume r: "fst ?R = Inr acct"
    with main show "length h \<le> cookies acct" and "cookies acct < length (fst (snd ?R))"
      and "fst (snd ?R) ! cookies acct = accumulated E tr 0 (snd (snd ?R)) ?c0"
      by simp_all
  next
    fix acct e assume r: "fst ?R = Inr acct" and "existingCookies a = Some e \<and> e < length h"
    with main show "cookies acct \<noteq> e" by auto
  qed
qed

text \<open>
  The theorem at a caller whose array holds two cookies, with a transport and a merge that
  both write to the array they are handed.
\<close>

theorem caller_cookies_untouched_witness:
  "existingCookies ex_args_cookies = Some 0 \<and> (0::nat) < length [[7, 8::nat]]
   \<and> fst (snd (authenticate ex_env_inplace tr_account_writes ex_args_cookies [[7, 8]])) ! 0
       = [7, 8]
   \<and> cookies (projr (fst (authenticate ex_env_inplace tr_account_writes ex_args_cookies [[7, 8]])))
       = 1
   \<and> fst (snd (authenticate ex_env_inplace tr_account_writes ex_args_cookies [[7, 8]])) ! 1
       = [99, 7, 8, 1]"
proof -
  let ?R = "authenticate ex_env_inplace tr_account_writes ex_args_cookies [[7, 8]]"
  let ?acct = "\<lparr>email = ''a@b.c'', password = ''pw'', appleId = PString ''a@b.c'', store = [],
            firstName = PString ''A'', lastName = PString ''B'', passwordToken = PString ''tok'',
            directoryServicesIdentifier = ''123456789'', cookies = 1,
            deviceIdentifier = ''0123456789AB'', pod = Some ''25''\<rparr>"
  have ev: "fst ?R = Inr ?acct" and log: "length (snd (snd ?R)) = 1"
    by (simp_all add: auth_eval ex_env_inplace_def ex_args_cookies_def tr_account_writes_def)
  have hyp: "existingCookies ex_args_cookies = Some 0 \<and> (0::nat) < length [[7, 8::nat]]"
    by (simp add: ex_args_cookies_def ex_args_def)
  note t = caller_cookies_untouched [of "[[7, 8]]" ex_env_inplace tr_account_writes ex_args_cookies]
  from t [THEN conjunct2, THEN conjunct1, rule_format, OF hyp]
  have a: "fst (snd ?R) ! 0 = [7, 8]" by simp
  from t [THEN conjunct2, THEN conjunct2, rule_format, OF ev]
  have "fst (snd ?R) ! 1
          = accumulated ex_env_inplace tr_account_writes 0 (snd (snd ?R)) [7, 8]"
    by (simp add: ex_args_cookies_def ex_args_def)
  moreover from log obtain req where "snd (snd ?R) = [req]"
    by (cases "snd (snd ?R)") auto
  ultimately have b: "fst (snd ?R) ! 1 = [99, 7, 8, 1]"
    by (simp add: tr_account_writes_def ex_env_inplace_def ex_env_def)
  from hyp a b ev show ?thesis by simp
qed

section \<open>Properties of the identity-provider client\<close>

text \<open>
  Claim C6. Whenever \<^verbatim>\<open>idmsaGetPhoneNumbers\<close> reports a result, there is a response
  whose parsed body the result comes from, and \<^verbatim>\<open>securityCodeCooldown\<close> of the result
  is true exactly when that body is an object whose member \<^verbatim>\<open>securityCode\<close> is an
  object in which \<^verbatim>\<open>tooManyCodesSent\<close> or \<^verbatim>\<open>securityCodeCooldown\<close> is the boolean
  \<^verbatim>\<open>true\<close>. A result is reported for every answer with status 200 whose body parses to
  an object with a well-formed (or absent) \<^verbatim>\<open>trustedPhoneNumbers\<close>; its
  \<^verbatim>\<open>tooManyCodesSent\<close> is the response's flag of that name alone.
\<close>

theorem cooldown_is_union:
  "(\<forall>res. idmsaGetPhoneNumbers P appleRequest session = Inr res
     \<longrightarrow> (\<exists>resp data. appleRequest (auth_info_request P session) = Inr resp
            \<and> status resp = 200 \<and> JSON_parse P (body resp) = Inr data
            \<and> securityCodeCooldown res
                = (\<exists>kvs sc. data = JObject kvs \<and> map_of kvs ''securityCode'' = Some (JObject sc)
                      \<and> (map_of sc ''tooManyCodesSent'' = Some (JBool True)
                         \<or> map_of sc ''securityCodeCooldown'' = Some (JBool True)))))
   \<and> (\<forall>resp kvs phones.
       appleRequest (auth_info_request P session) = Inr resp \<and> status resp = 200
       \<and> JSON_parse P (body resp) = Inr (JObject kvs)
       \<and> phones_of (map_of kvs ''trustedPhoneNumbers'') = Inr phones
     \<longrightarrow> (\<exists>res. idmsaGetPhoneNumbers P appleRequest session = Inr res
            \<and> trustedPhoneNumbers res = phones
            \<and> securityCodeCooldown res
                = (\<exists>sc. map_of kvs ''securityCode'' = Some (JObject sc)
                      \<and> (map_of sc ''tooManyCodesSent'' = Some (JBool True)
                         \<or> map_of sc ''securityCodeCooldown'' = Some (JBool True)))
            \<and> tooManyCodesSent res
                = (\<exists>sc. map_of kvs ''securityCode'' = Some (JObject sc)
                      \<and> map_of sc ''tooManyCodesSent'' = Some (JBool True))))"
proof -
  have flag: "securityCode_flag data k
                = (\<exists>kvs sc. data = JObject kvs \<and> map_of kvs ''securityCode'' = Some (JObject sc)
                      \<and> map_of sc k = Some (JBool True))" for data k
  proof (cases data)
    case (JObject kvs)
    show ?thesis
    proof (cases "map_of kvs ''securityCode''")
      case None
      with JObject show ?thesis by (simp add: securityCode_flag_def)
    next
      case (Some v)
      with JObject show ?thesis by (cases v) (simp_all add: securityCode_flag_def)
    qed
  qed (simp_all add: securityCode_flag_def)
  have union: "(securityCode_flag data ''tooManyCodesSent''
                  \<or> securityCode_flag data ''securityCodeCooldown'')
                = (\<exists>kvs sc. data = JObject kvs \<and> map_of kvs ''securityCode'' = Some (JObject sc)
                      \<and> (map_of sc ''tooManyCodesSent'' = Some (JBool True)
                         \<or> map_of sc ''securityCodeCooldown'' = Some (JBool True)))" for data
    unfolding flag by blast
  have a: "\<exists>resp data. appleRequest (auth_info_request P session) = Inr resp
            \<and> status resp = 200 \<and> JSON_parse P (body resp) = Inr data
            \<and> securityCodeCooldown res
                = (\<exists>kvs sc. data = JObject kvs \<and> map_of kvs ''securityCode'' = Some (JObject sc)
                      \<and> (map_of sc ''tooManyCodesSent'' = Some (JBool True)
                         \<or> map_of sc ''securityCodeCooldown'' = Some (JBool True)))"
    if r: "idmsaGetPhoneNumbers P appleRequest session = Inr res" for res
  proof -
    from r obtain resp data where "appleRequest (auth_info_request P session) = Inr resp"
      "status resp = 200" "JSON_parse P (body resp) = Inr data"
      "securityCodeCooldown res = (securityCode_flag data ''tooManyCodesSent''
                                    \<or> securityCode_flag data ''securityCodeCooldown'')"
      by (auto simp: idmsaGetPhoneNumbers_def and_then_def split: sum.splits if_splits)
    then show ?thesis unfolding union by blast
  qed
  have b: "\<exists>res. idmsaGetPhoneNumbers P appleRequest session = Inr res
            \<and> trustedPhoneNumbers res = phones
            \<and> securityCodeCooldown res
                = (\<exists>sc. map_of kvs ''securityCode'' = Some (JObject sc)
                      \<and> (map_of sc ''tooManyCodesSent'' = Some (JBool True)
                         \<or> map_of sc ''securityCodeCooldown'' = Some (JBool True)))
            \<and> tooManyCodesSent res
                = (\<exists>sc. map_of kvs ''securityCode'' = Some (JObject sc)
                      \<and> map_of sc ''tooManyCodesSent'' = Some (JBool True))"
    if h: "appleRequest (auth_info_request P session) = Inr resp \<and> status resp = 200
       \<and> JSON_parse P (body resp) = Inr (JObject kvs)
       \<and> phones_of (map_of kvs ''trustedPhoneNumbers'') = Inr phones"
    for resp kvs phones
  proof -
    from h have "idmsaGetPhoneNumbers P appleRequest session
           = Inr \<lparr>trustedPhoneNumbers = phones,
                  securityCodeCooldown = (securityCode_flag (JObject kvs) ''tooManyCodesSent''
                                          \<or> securityCode_flag (JObject kvs) ''securityCodeCooldown''),
                  tooManyCodesSent = securityCode_flag (JObject kvs) ''tooManyCodesSent'',
                  securityCodeLocked = securityCode_flag (JObject kvs) ''securityCodeLocked''\<rparr>"
      by (simp add: idmsaGetPhoneNumbers_def and_then_def)
    then show ?thesis unfolding union flag by auto
  qed
  from a b show ?thesis by blast
qed

text \<open>
  The theorem at three responses: \<^verbatim>\<open>tooManyCodesSent: true\<close> with
  \<^verbatim>\<open>securityCodeCooldown: false\<close> and the other way round, where the cooldown is
  reported, and both \<^verbatim>\<open>false\<close>, where it is not.
\<close>

theorem cooldown_is_union_witness:
  "(\<exists>res. idmsaGetPhoneNumbers ex_platform (ex_auth_info ''limits'')
             \<lparr>sessionId = ''S1'', scnt = ''T1''\<rparr> = Inr res
          \<and> securityCodeCooldown res \<and> tooManyCodesSent res)
   \<and> (\<exists>res. idmsaGetPhoneNumbers ex_platform (ex_auth_info ''cooldown'')
             \<lparr>sessionId = ''S1'', scnt = ''T1''\<rparr> = Inr res
          \<and> securityCodeCooldown res \<and> \<not> tooManyCodesSent res)
   \<and> (\<exists>res. idmsaGetPhoneNumbers ex_platform (ex_auth_info ''clear'')
             \<lparr>sessionId = ''S1'', scnt = ''T1''\<rparr> = Inr res
          \<and> \<not> securityCodeCooldown res \<and> \<not> tooManyCodesSent res)"
proof -
  let ?s = "\<lparr>sessionId = ''S1'', scnt = ''T1''\<rparr>"
  let ?limits = "[(''trustedPhoneNumbers'',
                     JArray [JObject [(''id'', JNumber 1),
                                      (''numberWithDialCode'', JString ''+1 (***) ***-**42''),
                                      (''pushMode'', JString ''sms'')]]),
                  (''securityCode'',
                     JObject [(''tooManyCodesSent'', JBool True),
                              (''securityCodeCooldown'', JBool False)])]"
  let ?cooldown = "[(''securityCode'',
                       JObject [(''tooManyCodesSent'', JBool False),
                                (''securityCodeCooldown'', JBool True)])]"
  let ?clear = "[(''securityCode'',
                    JObject [(''tooManyCodesSent'', JBool False),
                             (''securityCodeCooldown'', JBool False)])]"
  let ?phones = "[\<lparr>id' = Some (JNumber 1), numberWithDialCode = Some (JString ''+1 (***) ***-**42''),
                   pushMode = Some (JString ''sms'')\<rparr>]"
  let ?resp = "\<lambda>b. \<lparr>status = 200, statusText = ''OK'', headers = Map.empty, rawHeaders = [],
                     body = ascii b\<rparr>"
  have h1: "ex_auth_info ''limits'' (auth_info_request ex_platform ?s) = Inr (?resp ''limits'')
       \<and> status (?resp ''limits'') = 200
       \<and> JSON_parse ex_platform (body (?resp ''limits'')) = Inr (JObject ?limits)
       \<and> phones_of (map_of ?limits ''trustedPhoneNumbers'') = Inr ?phones"
    by (simp add: ex_auth_info_def ex_platform_def phones_of_def phone_of_def and_then_def)
  have h2: "ex_auth_info ''cooldown'' (auth_info_request ex_platform ?s) = Inr (?resp ''cooldown'')
       \<and> status (?resp ''cooldown'') = 200
       \<and> JSON_parse ex_platform (body (?resp ''cooldown'')) = Inr (JObject ?cooldown)
       \<and> phones_of (map_of ?cooldown ''trustedPhoneNumbers'') = Inr []"
    by (simp add: ex_auth_info_def ex_platform_def phones_of_def ascii_def)
  have h3: "ex_auth_info ''clear'' (auth_info_request ex_platform ?s) = Inr (?resp ''clear'')
       \<and> status (?resp ''clear'') = 200
       \<and> JSON_parse ex_platform (body (?resp ''clear'')) = Inr (JObject ?clear)
       \<and> phones_of (map_of ?clear ''trustedPhoneNumbers'') = Inr []"
    by (simp add: ex_auth_info_def ex_platform_def phones_of_def ascii_def)
  from cooldown_is_union [of ex_platform "ex_auth_info ''limits''" ?s, THEN conjunct2,
      rule_format, OF h1]
  have r1: "\<exists>res. idmsaGetPhoneNumbers ex_platform (ex_auth_info ''limits'') ?s = Inr res
          \<and> securityCodeCooldown res \<and> tooManyCodesSent res"
    by auto
  from cooldown_is_union [of ex_platform "ex_auth_info ''cooldown''" ?s, THEN conjunct2,
      rule_format, OF h2]
  have r2: "\<exists>res. idmsaGetPhoneNumbers ex_platform (ex_auth_info ''cooldown'') ?s = Inr res
          \<and> securityCodeCooldown res \<and> \<not> tooManyCodesSent res"
    by auto
  from cooldown_is_union [of ex_platform "ex_auth_info ''clear''" ?s, THEN conjunct2,
      rule_format, OF h3]
  have r3: "\<exists>res. idmsaGetPhoneNumbers ex_platform (ex_auth_info ''clear'') ?s = Inr res
          \<and> \<not> securityCodeCooldown res \<and> \<not> tooManyCodesSent res"
    by auto
  from r1 r2 r3 show ?thesis by blast
qed

text \<open>
  Claim C7. The answer to the complete request is accepted with status 200 or 409 and is
  an error with any other status; with an accepted status it is the missing-session-headers
  error when \<^verbatim>\<open>x-apple-id-session-id\<close> or \<^verbatim>\<open>scnt\<close> is absent, and the session made of
  the two headers when both are there and not empty. Whenever \<^verbatim>\<open>idmsaSignin\<close> gets as far
  as the complete request, its result is what this step makes of the answer.
\<close>

theorem signin_completion:
  "(status r \<noteq> 409 \<and> status r \<noteq> 200
      \<longrightarrow> signin_session r
            = Inl (Error (''IDMSA signin/complete failed: HTTP '' @ show_int (status r)
                          @ '' '' @ statusText r)))
   \<and> ((status r = 200 \<or> status r = 409)
       \<and> (headers r ''x-apple-id-session-id'' = None \<or> headers r ''scnt'' = None)
      \<longrightarrow> signin_session r = Inl (Error ''IDMSA signin: missing session headers''))
   \<and> (\<forall>sid tok. (status r = 200 \<or> status r = 409)
       \<and> headers r ''x-apple-id-session-id'' = Some sid \<and> sid \<noteq> []
       \<and> headers r ''scnt'' = Some tok \<and> tok \<noteq> []
      \<longrightarrow> signin_session r = Inr \<lparr>sessionId = sid, scnt = tok\<rparr>)
   \<and> (\<forall>client initResp d m1 m2.
         newClient L (TextEncoder_encode P email') [] = Inr client
       \<and> appleRequest (init_request P email' (bytesFromBigint L (client_A L client))) = Inr initResp
       \<and> status initResp = 200 \<and> parse_init (body initResp) = Inr d
       \<and> signin_proofs L P password' client d = Inr (m1, m2)
       \<and> appleRequest (complete_request P email' (init_c d) m1 m2) = Inr r
      \<longrightarrow> idmsaSignin L P parse_init appleRequest email' password' = signin_session r)"
proof (intro conjI allI impI)
  assume "status r \<noteq> 409 \<and> status r \<noteq> 200"
  then show "signin_session r
            = Inl (Error (''IDMSA signin/complete failed: HTTP '' @ show_int (status r)
                          @ '' '' @ statusText r))"
    by (simp add: signin_session_def)
next
  assume "(status r = 200 \<or> status r = 409)
       \<and> (headers r ''x-apple-id-session-id'' = None \<or> headers r ''scnt'' = None)"
  then show "signin_session r = Inl (Error ''IDMSA signin: missing session headers'')"
    by (auto simp: signin_session_def)
next
  fix sid tok
  assume "(status r = 200 \<or> status r = 409)
       \<and> headers r ''x-apple-id-session-id'' = Some sid \<and> sid \<noteq> []
       \<and> headers r ''scnt'' = Some tok \<and> tok \<noteq> []"
  then show "signin_session r = Inr \<lparr>sessionId = sid, scnt = tok\<rparr>"
    by (auto simp: signin_session_def)
next
  fix client initResp d m1 m2
  assume "newClient L (TextEncoder_encode P email') [] = Inr client
       \<and> appleRequest (init_request P email' (bytesFromBigint L (client_A L client))) = Inr initResp
       \<and> status initResp = 200 \<and> parse_init (body initResp) = Inr d
       \<and> signin_proofs L P password' client d = Inr (m1, m2)
       \<and> appleRequest (complete_request P email' (init_c d) m1 m2) = Inr r"
  then show "idmsaSignin L P parse_init appleRequest email' password' = signin_session r"
    by (simp add: idmsaSignin_def and_then_def)
qed

text \<open>
  The theorem on the run in which init answers with iteration 20000, a salt of 16 bytes,
  protocol \<^verbatim>\<open>s2k\<close> and \<^verbatim>\<open>c = "abc"\<close>, and complete answers 200 with the session id
  \<^verbatim>\<open>S1\<close> and the token \<^verbatim>\<open>T1\<close>.
\<close>

theorem signin_completion_witness:
  "signin_session \<lparr>status = 200, statusText = ''OK'',
                headers = [''x-apple-id-session-id'' \<mapsto> ''S1'', ''scnt'' \<mapsto> ''T1''],
                rawHeaders = [], body = []\<rparr> = Inr \<lparr>sessionId = ''S1'', scnt = ''T1''\<rparr>
   \<and> idmsaSignin ex_srp ex_platform ex_parse_init ex_idmsa ''a@b.c'' ''pw''
       = Inr \<lparr>sessionId = ''S1'', scnt = ''T1''\<rparr>"
proof -
  let ?r = "\<lparr>status = 200, statusText = ''OK'',
                headers = [''x-apple-id-session-id'' \<mapsto> ''S1'', ''scnt'' \<mapsto> ''T1''],
                rawHeaders = [], body = []\<rparr>"
  let ?i = "\<lparr>status = 200, statusText = ''OK'', headers = Map.empty, rawHeaders = [],
                body = ascii ''init''\<rparr>"
  let ?d = "\<lparr>init_iteration = 20000, init_salt = ''AAECAwQFBgcICQoLDA0ODw=='',
                init_protocol = ''s2k'', init_b = ''AQID'', init_c = JString ''abc''\<rparr>"
  note t = signin_completion [of ?r ex_srp ex_platform "''a@b.c''" ex_idmsa ex_parse_init "''pw''"]
  have s: "(status ?r = 200 \<or> status ?r = 409)
       \<and> headers ?r ''x-apple-id-session-id'' = Some ''S1'' \<and> ''S1'' \<noteq> []
       \<and> headers ?r ''scnt'' = Some ''T1'' \<and> ''T1'' \<noteq> []"
    by simp
  from t [THEN conjunct2, THEN conjunct2, THEN conjunct1, rule_format, OF s]
  have a: "signin_session ?r = Inr \<lparr>sessionId = ''S1'', scnt = ''T1''\<rparr>" .
  have p: "newClient ex_srp (TextEncoder_encode ex_platform ''a@b.c'') [] = Inr ([], [])
       \<and> ex_idmsa (init_request ex_platform ''a@b.c''
             (bytesFromBigint ex_srp (client_A ex_srp ([], [])))) = Inr ?i
       \<and> status ?i = 200 \<and> ex_parse_init (body ?i) = Inr ?d
       \<and> signin_proofs ex_srp ex_platform ''pw'' ([], []) ?d = Inr ([80, 81], [81, 80])
       \<and> ex_idmsa (complete_request ex_platform ''a@b.c'' (init_c ?d) [80, 81] [81, 80]) = Inr ?r"
    by (simp add: ex_signin_proofs)
       (simp add: ex_srp_def ex_idmsa_def init_request_def complete_request_def ex_parse_init_def)
  from t [THEN conjunct2, THEN conjunct2, THEN conjunct2, rule_format, OF p] a
  show ?thesis by simp
qed

text \<open>
  Claim C8, as amended. For an iteration count from 1 to 4294967295 \<^verbatim>\<open>derivePassword\<close>
  returns the key of the specification's derivation: the first 32 bytes of PBKDF2 with
  SHA-256 over the key material, which is the SHA-256 of the UTF-8 password for
  \<^verbatim>\<open>s2k\<close> and the UTF-8 of the lower-case hexadecimal text of that hash for
  \<^verbatim>\<open>s2k_fo\<close>. With the count 0 the derivation fails with an \<^verbatim>\<open>OperationError\<close>, and
  with a count that is negative or above 4294967295 with a \<^verbatim>\<open>TypeError\<close>.
\<close>

theorem derivePassword_is_PBKDF2:
  "(0 < iterations \<and> iterations \<le> 4294967295
      \<longrightarrow> derivePassword P proto password' saltB iterations
            = Inr (derive_spec P proto password' saltB (nat iterations))
          \<and> length (derive_spec P proto password' saltB (nat iterations)) = 32
          \<and> derive_spec P proto password' saltB (nat iterations)
              = map (PBKDF2_SHA256 P (key_material P proto password') saltB (nat iterations))
                  [0 ..< 32])
   \<and> (iterations = 0
      \<longrightarrow> derivePassword P proto password' saltB iterations = Inl (Error ''OperationError''))
   \<and> (iterations < 0 \<or> 4294967295 < iterations
      \<longrightarrow> derivePassword P proto password' saltB iterations = Inl (Error ''TypeError''))
   \<and> key_material P ''s2k'' password' = digest_SHA256 P (TextEncoder_encode P password')
   \<and> key_material P ''s2k_fo'' password'
       = TextEncoder_encode P (toHex (digest_SHA256 P (TextEncoder_encode P password')))"
  by (simp add: derivePassword_def derive_spec_def key_material_def deriveBits_def Let_def)

text \<open>The theorem at 20000 iterations and protocol \<^verbatim>\<open>s2k_fo\<close>.\<close>

theorem derivePassword_is_PBKDF2_witness:
  "(0::int) < 20000 \<and> (20000::int) \<le> 4294967295
   \<and> derivePassword ex_platform ''s2k_fo'' ''pw'' [1, 2, 3] 20000
       = Inr (derive_spec ex_platform ''s2k_fo'' ''pw'' [1, 2, 3] 20000)
   \<and> length (derive_spec ex_platform ''s2k_fo'' ''pw'' [1, 2, 3] 20000) = 32"
  using derivePassword_is_PBKDF2 [of 20000 ex_platform "''s2k_fo''" "''pw''" "[1, 2, 3]"]
  by simp

text \<open>
  The claim as it was stated covers every positive iteration count. At 4294967296, the
  first count beyond an \<^verbatim>\<open>unsigned long\<close>, \<^verbatim>\<open>crypto.subtle.deriveBits\<close> refuses the
  parameters and no key is returned.
\<close>

theorem derivePassword_rejects_large_count:
  "(0::int) < 4294967296
   \<and> derivePassword ex_platform ''s2k'' ''pw'' [1, 2, 3] 4294967296 = Inl (Error ''TypeError'')"
  by (simp add: derivePassword_def deriveBits_def Let_def)

text \<open>
  Claim C10. Decoding what \<^verbatim>\<open>b64Encode\<close> made of a byte array gives the byte array back:
  \<^verbatim>\<open>atob\<close> accepts every output of \<^verbatim>\<open>btoa\<close>, and the character codes survive the
  passage through the binary string.
\<close>

theorem b64_roundtrip: "b64Decode (b64Encode buf) = Inr buf"
proof -
  have lt: "unat b < 256" for b :: byte
  proof -
    have "unat b < 2 ^ LENGTH(8)" by (rule unsigned_less)
    then show ?thesis by simp
  qed
  have codes: "map of_char (map (\<lambda>byte. char_of (unat byte)) buf) = map unat buf"
    by (simp add: comp_def lt)
  have small: "\<forall>x\<in>set (map unat buf). x < 256"
    by (simp add: lt)
  have inv: "map (\<lambda>c. word_of_nat (of_char c)) (map char_of (map unat buf)) = buf"
    by (simp add: comp_def lt map_idI)
  show ?thesis
    unfolding b64Decode_def b64Encode_def btoa_def codes atob_btoa_codes [OF small] and_then_def
    by (simp only: sum.case inv)
qed

end
